theory Spec2Isabelle
  imports Complex_Main "HOL-Library.Word"
begin

section \<open>Machine types and arithmetic\<close>

text \<open>
  The mixer of \<^verbatim>\<open>AP_MotorsMatrix.cpp\<close> computes with \<^verbatim>\<open>int16_t\<close>, \<^verbatim>\<open>uint8_t\<close>
  and \<^verbatim>\<open>float\<close>. An \<^verbatim>\<open>int16_t\<close> variable is a 16-bit word read by \<open>sint\<close>; an
  expression over such variables is evaluated in \<^verbatim>\<open>int\<close> after integer promotion (exact
  for the few additions the code makes, \<^verbatim>\<open>int\<close> having 32 bits) and wraps when it is
  stored back into an \<^verbatim>\<open>int16_t\<close> variable, which is \<open>word_of_int\<close>.
\<close>

type_synonym int16_t = "16 word"
type_synonym uint8_t = "8 word"

abbreviation I16 :: "int \<Rightarrow> int16_t" where
  "I16 \<equiv> word_of_int"

text \<open>Integer division of C++ truncates towards zero.\<close>

definition c_div :: "int \<Rightarrow> int \<Rightarrow> int" where
  "c_div a b = sgn a * sgn b * (\<bar>a\<bar> div \<bar>b\<bar>)"

text \<open>
  A \<^verbatim>\<open>float\<close> is modelled by the real number it stands for, with the non-finite results
  of a division by zero kept apart. Rounding of the single-precision operations is not
  modelled. Only the operations the mixer performs are defined: a quotient of two finite
  numbers, a product of a float with a finite number, and a sum of a finite number and a
  float.
\<close>

datatype fl = Finite real | PInf | NInf | NaN

definition fdiv :: "real \<Rightarrow> real \<Rightarrow> fl" where
  "fdiv a b =
     (if b = 0 then (if a = 0 then NaN else if 0 < a then PInf else NInf)
      else Finite (a / b))"

fun fmul :: "fl \<Rightarrow> real \<Rightarrow> fl" where
  "fmul (Finite a) b = Finite (a * b)"
| "fmul PInf b = (if b = 0 then NaN else if 0 < b then PInf else NInf)"
| "fmul NInf b = (if b = 0 then NaN else if 0 < b then NInf else PInf)"
| "fmul NaN b = NaN"

fun fadd :: "real \<Rightarrow> fl \<Rightarrow> fl" where
  "fadd a (Finite b) = Finite (a + b)"
| "fadd a x = x"

text \<open>The comparison \<^verbatim>\<open>x <= y\<close> of a float with a finite number; false on NaN.\<close>

fun fle :: "fl \<Rightarrow> real \<Rightarrow> bool" where
  "fle (Finite a) b = (a \<le> b)"
| "fle NInf b = True"
| "fle PInf b = False"
| "fle NaN b = False"

text \<open>
  Storing a float into an \<^verbatim>\<open>int16_t\<close> variable truncates towards zero. When the
  truncated value does not fit, or the float is not finite, C++ leaves the result
  undefined: the model takes whatever the platform yields from the function \<open>undef\<close>,
  so that a theorem holds for every platform.
\<close>

definition trunc :: "real \<Rightarrow> int" where
  "trunc r = (if 0 \<le> r then \<lfloor>r\<rfloor> else \<lceil>r\<rceil>)"

definition f2i16 :: "(fl \<Rightarrow> int16_t) \<Rightarrow> fl \<Rightarrow> int16_t" where
  "f2i16 undef x =
     (case x of
        Finite r \<Rightarrow> if - 32769 < r \<and> r < 32768 then I16 (trunc r) else undef x
      | _ \<Rightarrow> undef x)"

section \<open>Data model\<close>

text \<open>
  One command axis (\<^verbatim>\<open>RC_Channel\<close>, declared outside the file): the fields the mixer
  reads and writes.
\<close>

record rc_channel =
  servo_out :: int16_t
  pwm_out :: int16_t
  radio_out :: int16_t
  radio_min :: int16_t
  radio_max :: int16_t

datatype axis = Roll | Pitch | Throttle | Yaw

text \<open>
  The members of \<^verbatim>\<open>AP_MotorsMatrix\<close> that the file uses. The per-motor arrays are
  functions of the slot index. The live-motor counter \<^verbatim>\<open>_num_motors\<close> is declared in
  the header, which is not part of the sources; it is an unbounded integer here.
\<close>

record ap_motors =
  motor_enabled :: "nat \<Rightarrow> bool"
  roll_factor :: "nat \<Rightarrow> real"
  pitch_factor :: "nat \<Rightarrow> real"
  yaw_factor :: "nat \<Rightarrow> real"
  test_order :: "nat \<Rightarrow> uint8_t"
  num_motors :: int
  motor_out :: "nat \<Rightarrow> int16_t"
  motor_to_channel_map :: "nat \<Rightarrow> nat"
  rc_roll :: rc_channel
  rc_pitch :: rc_channel
  rc_throttle :: rc_channel
  rc_yaw :: rc_channel
  min_throttle :: int16_t
  max_throttle :: int16_t
  hover_out :: int16_t
  spin_when_armed :: int16_t
  throttle_curve_enabled :: bool
  limit_roll_pitch :: bool
  limit_yaw :: bool
  limit_throttle :: bool

text \<open>
  What the file takes from outside: the constants \<^verbatim>\<open>AP_MOTORS_MAX_NUM_MOTORS\<close> and
  \<^verbatim>\<open>AP_MOTORS_MATRIX_YAW_LOWER_LIMIT_PWM\<close> of the header, the method
  \<^verbatim>\<open>RC_Channel::calc_pwm\<close>, the throttle curve's \<^verbatim>\<open>get_y\<close>, and the platform's
  result of an undefined float conversion.

  Modelled from the spec: \<^verbatim>\<open>calc_pwm\<close> is not in the sources; it refreshes the
  PWM-scale values \<^verbatim>\<open>pwm_out\<close> and \<^verbatim>\<open>radio_out\<close> of an axis and leaves its desired
  value and its bounds alone. \<open>calc_pwm e a c\<close> is the pair of new values for the
  channel \<open>c\<close> of axis \<open>a\<close>.
\<close>

record env =
  MAX_NUM_MOTORS :: nat
  YAW_LOWER_LIMIT_PWM :: int
  calc_pwm :: "axis \<Rightarrow> rc_channel \<Rightarrow> int16_t \<times> int16_t"
  get_y :: "int16_t \<Rightarrow> int16_t"
  undef_cast :: "fl \<Rightarrow> int16_t"

definition do_calc_pwm :: "env \<Rightarrow> axis \<Rightarrow> rc_channel \<Rightarrow> rc_channel" where
  "do_calc_pwm e a c =
     c\<lparr>pwm_out := fst (calc_pwm e a c), radio_out := snd (calc_pwm e a c)\<rparr>"

text \<open>
  What reaches the actuator and the scheduler, in order:
  \<^verbatim>\<open>hal.rcout->write(channel, value)\<close> and \<^verbatim>\<open>hal.scheduler->delay(ms)\<close>.
\<close>

datatype event = Write nat int16_t | Delay nat

text \<open>
  Modelled from the spec: \<^verbatim>\<open>constrain_int16\<close> and \<^verbatim>\<open>radians\<close> belong to the maths
  library, which is not in the sources. The first clamps a value into \<open>[low, high]\<close>, the
  second converts degrees to radians.
\<close>

definition constrain_int16 :: "int16_t \<Rightarrow> int16_t \<Rightarrow> int16_t \<Rightarrow> int16_t" where
  "constrain_int16 amt low high =
     (if sint amt < sint low then low else if sint high < sint amt then high else amt)"

definition radians :: "real \<Rightarrow> real" where
  "radians deg = deg * pi / 180"

text \<open>The loop \<^verbatim>\<open>for (i=0; i<AP_MOTORS_MAX_NUM_MOTORS; i++)\<close>.\<close>

definition for_motors :: "env \<Rightarrow> (nat \<Rightarrow> 'a \<Rightarrow> 'a) \<Rightarrow> 'a \<Rightarrow> 'a" where
  "for_motors e body x = fold body [0..<MAX_NUM_MOTORS e] x"

section \<open>Motor geometry registry\<close>

definition add_motor_raw ::
  "env \<Rightarrow> int \<Rightarrow> real \<Rightarrow> real \<Rightarrow> real \<Rightarrow> uint8_t \<Rightarrow> ap_motors \<Rightarrow> ap_motors" where
  "add_motor_raw e motor_num roll_fac pitch_fac yaw_fac testing_order s =
     (if 0 \<le> motor_num \<and> motor_num < int (MAX_NUM_MOTORS e) then
        (let n = nat motor_num;
             s1 = (if \<not> motor_enabled s n
                   then s\<lparr>motor_enabled := (motor_enabled s)(n := True),
                          num_motors := num_motors s + 1\<rparr>
                   else s)
         in s1\<lparr>roll_factor := (roll_factor s1)(n := roll_fac),
                pitch_factor := (pitch_factor s1)(n := pitch_fac),
                yaw_factor := (yaw_factor s1)(n := yaw_fac),
                test_order := (test_order s1)(n := testing_order)\<rparr>)
      else s)"

definition add_motor ::
  "env \<Rightarrow> int \<Rightarrow> real \<Rightarrow> real \<Rightarrow> uint8_t \<Rightarrow> ap_motors \<Rightarrow> ap_motors" where
  "add_motor e motor_num angle_degrees yaw_fac testing_order s =
     add_motor_raw e motor_num
       (cos (radians (angle_degrees + 90)))
       (cos (radians angle_degrees))
       yaw_fac testing_order s"

definition remove_motor :: "env \<Rightarrow> int \<Rightarrow> ap_motors \<Rightarrow> ap_motors" where
  "remove_motor e motor_num s =
     (if 0 \<le> motor_num \<and> motor_num < int (MAX_NUM_MOTORS e) then
        (let n = nat motor_num;
             s1 = (if motor_enabled s n then s\<lparr>num_motors := num_motors s - 1\<rparr> else s)
         in s1\<lparr>motor_enabled := (motor_enabled s1)(n := False),
                roll_factor := (roll_factor s1)(n := 0),
                pitch_factor := (pitch_factor s1)(n := 0),
                yaw_factor := (yaw_factor s1)(n := 0)\<rparr>)
      else s)"

definition remove_all_motors :: "env \<Rightarrow> ap_motors \<Rightarrow> ap_motors" where
  "remove_all_motors e s =
     (for_motors e (\<lambda>i. remove_motor e (int i)) s)\<lparr>num_motors := 0\<rparr>"

text \<open>
  The registry invariant of the data model: the counter equals the number of enabled
  slots, and a disabled slot has its three factors at zero.
\<close>

definition enabled_slots :: "env \<Rightarrow> ap_motors \<Rightarrow> nat list" where
  "enabled_slots e s = filter (motor_enabled s) [0..<MAX_NUM_MOTORS e]"

definition registry_inv :: "env \<Rightarrow> ap_motors \<Rightarrow> bool" where
  "registry_inv e s \<longleftrightarrow>
     int (length (enabled_slots e s)) = num_motors s \<and>
     (\<forall>i < MAX_NUM_MOTORS e. \<not> motor_enabled s i \<longrightarrow>
        roll_factor s i = 0 \<and> pitch_factor s i = 0 \<and> yaw_factor s i = 0)"

section \<open>Command mixer\<close>

text \<open>
  The loops that assign \<^verbatim>\<open>motor_out[i]\<close> for every enabled motor. The value assigned
  is a function \<open>g\<close> of the slot and of the old \<^verbatim>\<open>motor_out[i]\<close>: the loop bodies read
  nothing else that they write.
\<close>

definition update_motor_out ::
  "env \<Rightarrow> (nat \<Rightarrow> int16_t \<Rightarrow> int16_t) \<Rightarrow> ap_motors \<Rightarrow> ap_motors" where
  "update_motor_out e g s =
     for_motors e
       (\<lambda>i s. if motor_enabled s i
              then s\<lparr>motor_out := (motor_out s)(i := g i (motor_out s i))\<rparr>
              else s)
       s"

text \<open>\<^verbatim>\<open>output_min\<close>: every enabled motor is set to \<^verbatim>\<open>radio_min\<close>, and written.\<close>

definition output_min :: "env \<Rightarrow> ap_motors \<Rightarrow> ap_motors \<times> event list" where
  "output_min e s =
     for_motors e
       (\<lambda>i (s, tr).
          if motor_enabled s i then
            (let s' = s\<lparr>motor_out := (motor_out s)(i := radio_min (rc_throttle s))\<rparr>
             in (s', tr @ [Write (motor_to_channel_map s' i) (motor_out s' i)]))
          else (s, tr))
       (s, [])"

text \<open>The last loop of \<^verbatim>\<open>output_armed\<close>: every enabled motor's output is written.\<close>

definition send_outputs :: "env \<Rightarrow> ap_motors \<Rightarrow> event list" where
  "send_outputs e s =
     for_motors e
       (\<lambda>i tr. if motor_enabled s i
               then tr @ [Write (motor_to_channel_map s i) (motor_out s i)]
               else tr)
       []"

text \<open>
  The local variables of \<^verbatim>\<open>output_armed\<close>. Those that the code declares without an
  initial value (\<^verbatim>\<open>out_max_range\<close>, \<^verbatim>\<open>rpy_out\<close>, \<^verbatim>\<open>yaw_allowed\<close>, \<^verbatim>\<open>thr_adj\<close>) start
  at zero here; the code assigns each of them before it reads it.
\<close>

record locals =
  out_min :: int16_t
  out_max :: int16_t
  out_mid :: int16_t
  out_max_range :: int16_t
  rpy_scale :: fl
  rpy_out :: "nat \<Rightarrow> int16_t"
  rpy_low :: int16_t
  rpy_high :: int16_t
  yaw_allowed :: int16_t
  thr_adj :: int16_t

type_synonym frame = "ap_motors \<times> locals"

text \<open>
  Lines 97 to 123: the locals, the limit flags, the clamp of the throttle's desired
  value into \<open>[0, max_throttle]\<close>, and \<^verbatim>\<open>calc_pwm\<close> on the four axes.
\<close>

definition armed_begin :: "env \<Rightarrow> ap_motors \<Rightarrow> frame" where
  "armed_begin e s0 =
     (let omin = I16 (sint (radio_min (rc_throttle s0)) + sint (min_throttle s0));
          omax = radio_max (rc_throttle s0);
          l = \<lparr>out_min = omin, out_max = omax,
               out_mid = I16 (c_div (sint omin + sint omax) 2),
               out_max_range = 0, rpy_scale = Finite 1, rpy_out = (\<lambda>i. 0),
               rpy_low = 0, rpy_high = 0, yaw_allowed = 0, thr_adj = 0\<rparr>;
          s1 = s0\<lparr>limit_roll_pitch := False, limit_yaw := False, limit_throttle := False\<rparr>;
          s2 = s1\<lparr>rc_throttle := (rc_throttle s1)
                 \<lparr>servo_out := constrain_int16 (servo_out (rc_throttle s1)) 0 (max_throttle s1)\<rparr>\<rparr>;
          s3 = s2\<lparr>rc_roll := do_calc_pwm e Roll (rc_roll s2)\<rparr>;
          s4 = s3\<lparr>rc_pitch := do_calc_pwm e Pitch (rc_pitch s3)\<rparr>;
          s5 = s4\<lparr>rc_throttle := do_calc_pwm e Throttle (rc_throttle s4)\<rparr>;
          s6 = s5\<lparr>rc_yaw := do_calc_pwm e Yaw (rc_yaw s5)\<rparr>
      in (s6, l))"

text \<open>Lines 126 to 144: the throttle's desired value is zero.\<close>

definition zero_throttle :: "env \<Rightarrow> frame \<Rightarrow> frame" where
  "zero_throttle e x =
     (let (s, l) = x;
          s1 = (if sint (spin_when_armed s) < 0 then s\<lparr>spin_when_armed := 0\<rparr> else s);
          s2 = (if sint (min_throttle s1) < sint (spin_when_armed s1)
                then s1\<lparr>spin_when_armed := min_throttle s1\<rparr> else s1);
          s3 = update_motor_out e
                 (\<lambda>i v. I16 (sint (radio_min (rc_throttle s2)) + sint (spin_when_armed s2))) s2
      in (s3\<lparr>limit_roll_pitch := True, limit_yaw := True, limit_throttle := True\<rparr>, l))"

text \<open>
  Lines 149 to 168: the throttle flag, and the roll and pitch command of every enabled
  motor with its lowest and highest value.
\<close>

definition track_low_high :: "nat \<Rightarrow> locals \<Rightarrow> locals" where
  "track_low_high i l =
     (let l1 = (if sint (rpy_out l i) < sint (rpy_low l) then l\<lparr>rpy_low := rpy_out l i\<rparr> else l)
      in if sint (rpy_high l1) < sint (rpy_out l1 i) then l1\<lparr>rpy_high := rpy_out l1 i\<rparr> else l1)"

definition general_roll_pitch :: "env \<Rightarrow> frame \<Rightarrow> frame" where
  "general_roll_pitch e x =
     (let (s, l) = x;
          s1 = (if sint (radio_out (rc_throttle s)) < sint (out_min l)
                then s\<lparr>limit_throttle := True\<rparr> else s);
          l1 = for_motors e
                 (\<lambda>i l. if motor_enabled s1 i then
                          track_low_high i
                            (l\<lparr>rpy_out := (rpy_out l)(i :=
                                 f2i16 (undef_cast e)
                                   (Finite (real_of_int (sint (pwm_out (rc_roll s1))) * roll_factor s1 i +
                                            real_of_int (sint (pwm_out (rc_pitch s1))) * pitch_factor s1 i)))\<rparr>)
                        else l)
                 l
      in (s1, l1))"

text \<open>Lines 174 to 180: the throttle point with most room for yaw, and that room.\<close>

definition general_yaw_room :: "env \<Rightarrow> frame \<Rightarrow> frame" where
  "general_yaw_room e x =
     (let (s, l) = x;
          motor_mid = I16 (c_div (sint (rpy_low l) + sint (rpy_high l)) 2);
          l1 = l\<lparr>out_max_range :=
                 I16 (min (sint (out_mid l) - sint motor_mid)
                          (max (sint (radio_out (rc_throttle s)))
                               (c_div (sint (radio_out (rc_throttle s)) + sint (hover_out s)) 2)))\<rparr>;
          l2 = l1\<lparr>yaw_allowed :=
                 I16 (min (sint (out_max l1) - sint (out_max_range l1))
                          (sint (out_max_range l1) - sint (out_min l1))
                      - c_div (sint (rpy_high l1) - sint (rpy_low l1)) 2)\<rparr>;
          l3 = l2\<lparr>yaw_allowed := I16 (max (sint (yaw_allowed l2)) (YAW_LOWER_LIMIT_PWM e))\<rparr>
      in (s, l3))"

text \<open>
  Lines 182 to 197: the requested yaw is limited to the room; from here on
  \<^verbatim>\<open>yaw_allowed\<close> is the yaw that is output.
\<close>

definition general_yaw_clamp :: "env \<Rightarrow> frame \<Rightarrow> frame" where
  "general_yaw_clamp e x =
     (let (s, l) = x in
      if 0 \<le> sint (pwm_out (rc_yaw s)) then
        (if sint (pwm_out (rc_yaw s)) < sint (yaw_allowed l)
         then (s, l\<lparr>yaw_allowed := pwm_out (rc_yaw s)\<rparr>)
         else (s\<lparr>limit_yaw := True\<rparr>, l))
      else
        (let l1 = l\<lparr>yaw_allowed := I16 (- sint (yaw_allowed l))\<rparr> in
         if sint (yaw_allowed l1) < sint (pwm_out (rc_yaw s))
         then (s, l1\<lparr>yaw_allowed := pwm_out (rc_yaw s)\<rparr>)
         else (s\<lparr>limit_yaw := True\<rparr>, l1)))"

text \<open>Lines 200 to 214: yaw is added to the command of every enabled motor.\<close>

definition general_add_yaw :: "env \<Rightarrow> frame \<Rightarrow> frame" where
  "general_add_yaw e x =
     (let (s, l) = x;
          l1 = for_motors e
                 (\<lambda>i l. if motor_enabled s i then
                          track_low_high i
                            (l\<lparr>rpy_out := (rpy_out l)(i :=
                                 f2i16 (undef_cast e)
                                   (Finite (real_of_int (sint (rpy_out l i)) +
                                            real_of_int (sint (yaw_allowed l)) * yaw_factor s i)))\<rparr>)
                        else l)
                 l
      in (s, l1))"

text \<open>Lines 217 to 232: the throttle adjustment.\<close>

definition general_thr_adj :: "env \<Rightarrow> frame \<Rightarrow> frame" where
  "general_thr_adj e x =
     (let (s, l) = x;
          l1 = l\<lparr>thr_adj := I16 (sint (radio_out (rc_throttle s)) - sint (out_max_range l))\<rparr>
      in
      if 0 < sint (thr_adj l1) then
        (if sint (out_max l1) - (sint (rpy_high l1) + sint (out_max_range l1)) < sint (thr_adj l1)
         then (s\<lparr>limit_throttle := True\<rparr>,
               l1\<lparr>thr_adj := I16 (sint (out_max l1) - (sint (rpy_high l1) + sint (out_max_range l1)))\<rparr>)
         else (s, l1))
      else if sint (thr_adj l1) < 0 then
        (s, l1\<lparr>thr_adj :=
               I16 (max (min (sint (thr_adj l1))
                             (sint (out_max l1) - (sint (rpy_high l1) + sint (out_max_range l1))))
                        (min (sint (out_min l1) - (sint (rpy_low l1) + sint (out_max_range l1))) 0))\<rparr>)
      else (s, l1))"

text \<open>Lines 236 to 246: the last-resort scale of roll, pitch and yaw.\<close>

definition general_scale :: "env \<Rightarrow> frame \<Rightarrow> frame" where
  "general_scale e x =
     (let (s, l) = x in
      if (sint (rpy_low l) + sint (out_max_range l)) + sint (thr_adj l) < sint (out_min l) then
        (s\<lparr>limit_roll_pitch := True, limit_yaw := True\<rparr>,
         l\<lparr>rpy_scale :=
             fdiv (real_of_int (sint (out_min l) - sint (thr_adj l) - sint (out_max_range l)))
                  (real_of_int (sint (rpy_low l)))\<rparr>)
      else if sint (out_max l) < (sint (rpy_high l) + sint (out_max_range l)) + sint (thr_adj l) then
        (s\<lparr>limit_roll_pitch := True, limit_yaw := True\<rparr>,
         l\<lparr>rpy_scale :=
             fdiv (real_of_int (sint (out_max l) - sint (thr_adj l) - sint (out_max_range l)))
                  (real_of_int (sint (rpy_high l)))\<rparr>)
      else (s, l))"

text \<open>Lines 249 to 269: the motor values, the throttle curve, the final clip.\<close>

definition general_outputs :: "env \<Rightarrow> frame \<Rightarrow> frame" where
  "general_outputs e x =
     (let (s, l) = x;
          s1 = update_motor_out e
                 (\<lambda>i v. f2i16 (undef_cast e)
                          (fadd (real_of_int (sint (out_max_range l) + sint (thr_adj l)))
                                (fmul (rpy_scale l) (real_of_int (sint (rpy_out l i))))))
                 s;
          s2 = (if throttle_curve_enabled s1
                then update_motor_out e (\<lambda>i v. get_y e v) s1 else s1);
          s3 = update_motor_out e (\<lambda>i v. constrain_int16 v (out_min l) (out_max l)) s2
      in (s3, l))"

text \<open>The frames of the general path, one after each block.\<close>

definition after_roll_pitch :: "env \<Rightarrow> ap_motors \<Rightarrow> frame" where
  "after_roll_pitch e s0 = general_roll_pitch e (armed_begin e s0)"

definition after_yaw_room :: "env \<Rightarrow> ap_motors \<Rightarrow> frame" where
  "after_yaw_room e s0 = general_yaw_room e (after_roll_pitch e s0)"

definition after_yaw_clamp :: "env \<Rightarrow> ap_motors \<Rightarrow> frame" where
  "after_yaw_clamp e s0 = general_yaw_clamp e (after_yaw_room e s0)"

definition after_add_yaw :: "env \<Rightarrow> ap_motors \<Rightarrow> frame" where
  "after_add_yaw e s0 = general_add_yaw e (after_yaw_clamp e s0)"

definition after_thr_adj :: "env \<Rightarrow> ap_motors \<Rightarrow> frame" where
  "after_thr_adj e s0 = general_thr_adj e (after_add_yaw e s0)"

definition after_scale :: "env \<Rightarrow> ap_motors \<Rightarrow> frame" where
  "after_scale e s0 = general_scale e (after_thr_adj e s0)"

text \<open>
  The test of line 126 on the frame of line 123: whether the cycle takes the
  zero-throttle branch.
\<close>

definition zero_throttle_cycle :: "env \<Rightarrow> ap_motors \<Rightarrow> bool" where
  "zero_throttle_cycle e s0 \<longleftrightarrow> servo_out (rc_throttle (fst (armed_begin e s0))) = 0"

definition output_armed :: "env \<Rightarrow> ap_motors \<Rightarrow> ap_motors \<times> event list" where
  "output_armed e s0 =
     (let x = (if zero_throttle_cycle e s0
               then zero_throttle e (armed_begin e s0)
               else general_outputs e (after_scale e s0))
      in (fst x, send_outputs e (fst x)))"

definition output_disarmed :: "env \<Rightarrow> ap_motors \<Rightarrow> ap_motors \<times> event list" where
  "output_disarmed e s = output_min e s"

section \<open>Test sequencer\<close>

text \<open>
  Lines 294 to 301: the lowest and the highest test order over all slots, enabled or
  not. The slot index is a \<^verbatim>\<open>uint8_t\<close>; the capacity is taken to fit in it.
\<close>

definition find_orders :: "env \<Rightarrow> ap_motors \<Rightarrow> uint8_t \<times> uint8_t" where
  "find_orders e s =
     fold (\<lambda>i (min_order, max_order).
             (if test_order s i < min_order then test_order s i else min_order,
              if max_order < test_order s i then test_order s i else max_order))
          [1..<MAX_NUM_MOTORS e]
          (test_order s 0, test_order s 0)"

text \<open>
  The pulse pair of one motor (lines 314 to 317), and the inner loop of line 311 for
  one value \<open>i\<close> of the order.
\<close>

definition pulse :: "ap_motors \<Rightarrow> nat \<Rightarrow> event list" where
  "pulse s j =
     [Write (motor_to_channel_map s j)
            (I16 (sint (radio_min (rc_throttle s)) + sint (min_throttle s))),
      Delay 300,
      Write (motor_to_channel_map s j) (radio_min (rc_throttle s)),
      Delay 2000]"

definition fire_order :: "env \<Rightarrow> ap_motors \<Rightarrow> uint8_t \<Rightarrow> event list" where
  "fire_order e s i =
     for_motors e
       (\<lambda>j tr. if motor_enabled s j \<and> test_order s j = i then tr @ pulse s j else tr)
       []"

text \<open>
  The outer loop of line 310, \<^verbatim>\<open>for (i=min_order; i<=max_order; i++)\<close>, with
  \<^verbatim>\<open>i\<close> and \<^verbatim>\<open>max_order\<close> of type \<^verbatim>\<open>uint8_t\<close>: the comparison is unsigned and the
  increment wraps. The loop need not end, so its result is an option: \<open>None\<close> when it
  runs forever.
\<close>

partial_function (option) order_loop ::
  "env \<Rightarrow> ap_motors \<Rightarrow> uint8_t \<Rightarrow> uint8_t \<Rightarrow> event list \<Rightarrow> event list option" where
  "order_loop e s max_order i tr =
     (if i \<le> max_order
      then order_loop e s max_order (i + 1) (tr @ fire_order e s i)
      else Some tr)"

definition output_test :: "env \<Rightarrow> ap_motors \<Rightarrow> (ap_motors \<times> event list) option" where
  "output_test e s =
     (let (min_order, max_order) = find_orders e s;
          (s1, tr1) = output_min e s
      in case order_loop e s1 max_order min_order (tr1 @ [Delay 4000]) of
           None \<Rightarrow> None
         | Some tr2 \<Rightarrow> (let (s2, tr3) = output_min e s1 in Some (s2, tr2 @ tr3)))"

section \<open>The specification's clamp\<close>

text \<open>
  The specification writes \<open>clamp(x, lo, hi)\<close> for a value limited from below by \<open>lo\<close>
  and then from above by \<open>hi\<close>.
\<close>

definition clamp :: "int \<Rightarrow> int \<Rightarrow> int \<Rightarrow> int" where
  "clamp x lo hi = min (max x lo) hi"


section \<open>Example configurations\<close>

text \<open>
  A capacity of eight slots and a yaw floor of 200, axes whose \<^verbatim>\<open>calc_pwm\<close> keeps the
  PWM values they hold, an identity throttle curve, and a freshly constructed mixer: no
  motor, a throttle axis from 1000 to 2000, a minimum throttle of 100.
\<close>

definition env0 :: env where
  "env0 = \<lparr>MAX_NUM_MOTORS = 8, YAW_LOWER_LIMIT_PWM = 200,
           calc_pwm = (\<lambda>a c. (pwm_out c, radio_out c)),
           get_y = (\<lambda>v. v), undef_cast = (\<lambda>x. 0)\<rparr>"

definition chan0 :: rc_channel where
  "chan0 = \<lparr>servo_out = 0, pwm_out = 0, radio_out = 0, radio_min = 1000, radio_max = 2000\<rparr>"

definition motors0 :: ap_motors where
  "motors0 = \<lparr>motor_enabled = (\<lambda>i. False), roll_factor = (\<lambda>i. 0), pitch_factor = (\<lambda>i. 0),
              yaw_factor = (\<lambda>i. 0), test_order = (\<lambda>i. 0), num_motors = 0,
              motor_out = (\<lambda>i. 0), motor_to_channel_map = (\<lambda>i. i),
              rc_roll = chan0, rc_pitch = chan0, rc_throttle = chan0, rc_yaw = chan0,
              min_throttle = 100, max_throttle = 1000, hover_out = 500, spin_when_armed = 0,
              throttle_curve_enabled = False,
              limit_roll_pitch = False, limit_yaw = False, limit_throttle = False\<rparr>"

text \<open>The four-motor frame: motors at 45, 135, 225 and 315 degrees, yaw factors alternating.\<close>

definition quad_x :: ap_motors where
  "quad_x = add_motor env0 3 315 (- 1) 3
              (add_motor env0 2 225 1 2
                 (add_motor env0 1 135 (- 1) 1
                    (add_motor env0 0 45 1 0 motors0)))"

text \<open>The frame armed with zero throttle, and a spin-when-armed above the minimum throttle.\<close>

definition quad_idle :: ap_motors where
  "quad_idle = quad_x\<lparr>spin_when_armed := 150\<rparr>"

text \<open>
  The frame at mid throttle with neutral roll, pitch and yaw: the desired throttle is
  500 and its PWM value 1500.
\<close>

definition quad_mid :: ap_motors where
  "quad_mid = quad_x\<lparr>rc_throttle := chan0\<lparr>servo_out := 500, radio_out := 1500\<rparr>\<rparr>"

text \<open>
  A throttle axis calibrated from 1100 to 1200 with a minimum throttle of 130, which is
  more than the axis spans, at zero throttle.
\<close>

definition quad_narrow :: ap_motors where
  "quad_narrow = quad_x\<lparr>rc_throttle := chan0\<lparr>radio_min := 1100, radio_max := 1200\<rparr>,
                        min_throttle := 130, spin_when_armed := 130\<rparr>"

text \<open>
  The frame at low throttle with neutral roll, pitch and yaw: the desired throttle is 50
  and its PWM value 1050, below \<open>radio_min + min_throttle\<close>.
\<close>

definition quad_low :: ap_motors where
  "quad_low = quad_x\<lparr>rc_throttle := chan0\<lparr>servo_out := 50, radio_out := 1050\<rparr>\<rparr>"



text \<open>The four-motor frame with a fifth motor whose test order is 255.\<close>

definition quad_last :: ap_motors where
  "quad_last = add_motor env0 4 0 1 255 quad_x"

section \<open>Auxiliary notions\<close>

text \<open>The constants of a cycle among the locals.\<close>

definition cycle_consts :: "locals \<Rightarrow> int16_t \<times> int16_t \<times> int16_t" where
  "cycle_consts l = (out_min l, out_max l, out_mid l)"

text \<open>A mixer state with its limit flags cleared.\<close>

definition flags_cleared :: "ap_motors \<Rightarrow> ap_motors" where
  "flags_cleared s = s\<lparr>limit_roll_pitch := False, limit_yaw := False, limit_throttle := False\<rparr>"

text \<open>The lowest command is at or below zero and the highest at or above.\<close>

definition low_high_ok :: "locals \<Rightarrow> bool" where
  "low_high_ok l \<longleftrightarrow> sint (rpy_low l) \<le> 0 \<and> 0 \<le> sint (rpy_high l)"

text \<open>
  The throttle point and the yaw room of a cycle whose roll and pitch are neutral, from
  the constants of the cycle, the throttle PWM and the hover estimate.
\<close>

definition neutral_range :: "locals \<Rightarrow> int16_t \<Rightarrow> int16_t \<Rightarrow> int16_t" where
  "neutral_range l ro h =
     I16 (min (sint (out_mid l)) (max (sint ro) (c_div (sint ro + sint h) 2)))"

definition neutral_room :: "env \<Rightarrow> locals \<Rightarrow> int16_t \<Rightarrow> int16_t \<Rightarrow> int16_t" where
  "neutral_room e l ro h =
     I16 (max (sint (I16 (min (sint (out_max l) - sint (neutral_range l ro h))
                              (sint (neutral_range l ro h) - sint (out_min l)))))
              (YAW_LOWER_LIMIT_PWM e))"

text \<open>
  The motors that the test sequencer fires, in order: for every order from the lowest to
  the highest, the enabled slots of that order by increasing index.
\<close>

definition firing_sequence :: "env \<Rightarrow> ap_motors \<Rightarrow> nat list" where
  "firing_sequence e s =
     concat (map (\<lambda>n. filter (\<lambda>j. motor_enabled s j \<and> test_order s j = of_nat n)
                               [0..<MAX_NUM_MOTORS e])
                 [unat (fst (find_orders e s))..<Suc (unat (snd (find_orders e s)))])"

text \<open>Slot \<open>a\<close> is tested before slot \<open>b\<close>: a lower order, or the same order and a lower index.\<close>

definition tested_before :: "ap_motors \<Rightarrow> nat \<Rightarrow> nat \<Rightarrow> bool" where
  "tested_before s a b \<longleftrightarrow>
     test_order s a < test_order s b \<or> (test_order s a = test_order s b \<and> a < b)"

section \<open>The registry keeps its invariant\<close>

lemma length_enabled_card:
  "length (enabled_slots e s) = card {i. i < MAX_NUM_MOTORS e \<and> motor_enabled s i}"
proof -
  have "distinct (enabled_slots e s)" by (simp add: enabled_slots_def)
  then have "length (enabled_slots e s) = card (set (enabled_slots e s))"
    by (simp add: distinct_card)
  also have "set (enabled_slots e s) = {i. i < MAX_NUM_MOTORS e \<and> motor_enabled s i}"
    by (auto simp: enabled_slots_def)
  finally show ?thesis .
qed

lemma add_motor_raw_inv:
  assumes "registry_inv e s"
  shows "registry_inv e (add_motor_raw e n r p y t s)"
proof (cases "0 \<le> n \<and> n < int (MAX_NUM_MOTORS e)")
  case False
  then show ?thesis using assms by (auto simp: add_motor_raw_def)
next
  case True
  define k where "k = nat n"
  have k: "k < MAX_NUM_MOTORS e" using True unfolding k_def by linarith
  show ?thesis
  proof (cases "motor_enabled s k")
    case en: True
    have "{i. i < MAX_NUM_MOTORS e \<and> motor_enabled (add_motor_raw e n r p y t s) i}
        = {i. i < MAX_NUM_MOTORS e \<and> motor_enabled s i}"
      using True en by (auto simp: add_motor_raw_def Let_def k_def)
    then show ?thesis
      using assms True en
      by (auto simp: registry_inv_def length_enabled_card add_motor_raw_def Let_def k_def)
  next
    case dis: False
    have fin: "finite {i. i < MAX_NUM_MOTORS e \<and> motor_enabled s i}" by simp
    have "{i. i < MAX_NUM_MOTORS e \<and> motor_enabled (add_motor_raw e n r p y t s) i}
        = insert k {i. i < MAX_NUM_MOTORS e \<and> motor_enabled s i}"
      using True dis k by (auto simp: add_motor_raw_def Let_def k_def)
    moreover have "k \<notin> {i. i < MAX_NUM_MOTORS e \<and> motor_enabled s i}" using dis by simp
    ultimately have "card {i. i < MAX_NUM_MOTORS e \<and> motor_enabled (add_motor_raw e n r p y t s) i}
        = Suc (card {i. i < MAX_NUM_MOTORS e \<and> motor_enabled s i})"
      using fin by simp
    moreover have "num_motors (add_motor_raw e n r p y t s) = num_motors s + 1"
      using True dis by (simp add: add_motor_raw_def Let_def k_def)
    moreover have "\<forall>i < MAX_NUM_MOTORS e. \<not> motor_enabled (add_motor_raw e n r p y t s) i \<longrightarrow>
        roll_factor (add_motor_raw e n r p y t s) i = 0 \<and>
        pitch_factor (add_motor_raw e n r p y t s) i = 0 \<and>
        yaw_factor (add_motor_raw e n r p y t s) i = 0"
      using assms True dis by (auto simp: registry_inv_def add_motor_raw_def Let_def k_def)
    ultimately show ?thesis
      using assms by (simp add: registry_inv_def length_enabled_card)
  qed
qed

lemma remove_motor_inv:
  assumes "registry_inv e s"
  shows "registry_inv e (remove_motor e n s)"
proof (cases "0 \<le> n \<and> n < int (MAX_NUM_MOTORS e)")
  case False
  then show ?thesis using assms by (auto simp: remove_motor_def)
next
  case True
  define k where "k = nat n"
  have k: "k < MAX_NUM_MOTORS e" using True unfolding k_def by linarith
  have fac: "\<forall>i < MAX_NUM_MOTORS e. \<not> motor_enabled (remove_motor e n s) i \<longrightarrow>
        roll_factor (remove_motor e n s) i = 0 \<and>
        pitch_factor (remove_motor e n s) i = 0 \<and>
        yaw_factor (remove_motor e n s) i = 0"
    using assms True by (auto simp: registry_inv_def remove_motor_def Let_def k_def)
  show ?thesis
  proof (cases "motor_enabled s k")
    case dis: False
    have "{i. i < MAX_NUM_MOTORS e \<and> motor_enabled (remove_motor e n s) i}
        = {i. i < MAX_NUM_MOTORS e \<and> motor_enabled s i}"
      using True dis by (auto simp: remove_motor_def Let_def k_def)
    moreover have "num_motors (remove_motor e n s) = num_motors s"
      using True dis by (simp add: remove_motor_def Let_def k_def)
    ultimately show ?thesis
      using assms fac by (simp add: registry_inv_def length_enabled_card)
  next
    case en: True
    let ?A = "{i. i < MAX_NUM_MOTORS e \<and> motor_enabled s i}"
    have fin: "finite ?A" by simp
    have kin: "k \<in> ?A" using en k by simp
    have "{i. i < MAX_NUM_MOTORS e \<and> motor_enabled (remove_motor e n s) i} = ?A - {k}"
      using True en by (auto simp: remove_motor_def Let_def k_def)
    then have "card {i. i < MAX_NUM_MOTORS e \<and> motor_enabled (remove_motor e n s) i}
        = card ?A - 1"
      using fin kin by simp
    moreover have "0 < card ?A" using fin kin by (auto simp: card_gt_0_iff)
    moreover have "num_motors (remove_motor e n s) = num_motors s - 1"
      using True en by (simp add: remove_motor_def Let_def k_def)
    ultimately show ?thesis
      using assms fac by (simp add: registry_inv_def length_enabled_card)
  qed
qed

lemma remove_loop_clears:
  "n \<le> MAX_NUM_MOTORS e \<Longrightarrow> i < n \<Longrightarrow>
   (let s' = fold (\<lambda>i. remove_motor e (int i)) [0..<n] s in
      \<not> motor_enabled s' i \<and> roll_factor s' i = 0 \<and> pitch_factor s' i = 0 \<and> yaw_factor s' i = 0)"
proof (induction n)
  case 0
  then show ?case by simp
next
  case (Suc n)
  show ?case
  proof (cases "i = n")
    case True
    then show ?thesis using Suc.prems by (simp add: remove_motor_def Let_def)
  next
    case False
    then have "i < n" using Suc.prems by simp
    then show ?thesis using Suc.IH Suc.prems by (simp add: remove_motor_def Let_def)
  qed
qed

lemma remove_all_motors_inv: "registry_inv e (remove_all_motors e s)"
proof -
  let ?s = "fold (\<lambda>i. remove_motor e (int i)) [0..<MAX_NUM_MOTORS e] s"
  have clr: "\<And>i. i < MAX_NUM_MOTORS e \<Longrightarrow>
      \<not> motor_enabled ?s i \<and> roll_factor ?s i = 0 \<and> pitch_factor ?s i = 0 \<and> yaw_factor ?s i = 0"
    using remove_loop_clears [of "MAX_NUM_MOTORS e" e _ s] by (simp add: Let_def)
  have "{i. i < MAX_NUM_MOTORS e \<and> motor_enabled ?s i} = {}" using clr by auto
  then show ?thesis
    using clr by (simp add: registry_inv_def length_enabled_card remove_all_motors_def for_motors_def)
qed

lemma quad_x_enabled: "motor_enabled quad_x = (\<lambda>i. i < 4)"
  by (auto simp: quad_x_def add_motor_def add_motor_raw_def motors0_def env0_def Let_def fun_eq_iff)

lemma quad_x_slots: "enabled_slots env0 quad_x = [0, 1, 2, 3]"
  by (simp add: enabled_slots_def quad_x_enabled env0_def upt_rec)

lemma quad_x_inv: "registry_inv env0 quad_x"
  unfolding registry_inv_def quad_x_slots
  by (simp add: quad_x_enabled)
     (simp add: quad_x_def add_motor_def add_motor_raw_def motors0_def env0_def Let_def)

text \<open>
  Claim C7. If the registry invariant holds (the counter equals the number of enabled
  slots, and every disabled slot has its roll, pitch and yaw factors at zero), it holds
  again after \<^verbatim>\<open>add_motor_raw\<close>, \<^verbatim>\<open>add_motor\<close>, \<^verbatim>\<open>remove_motor\<close> and
  \<^verbatim>\<open>remove_all_motors\<close>, whatever their arguments.
\<close>

theorem registry_invariant_preserved:
  "registry_inv e s \<Longrightarrow>
   registry_inv e (add_motor_raw e n r p y t s) \<and>
   registry_inv e (add_motor e n a y t s) \<and>
   registry_inv e (remove_motor e n s) \<and>
   registry_inv e (remove_all_motors e s)"
  by (simp add: add_motor_raw_inv add_motor_def remove_motor_inv remove_all_motors_inv)

theorem registry_invariant_preserved_witness:
  "registry_inv env0 quad_x \<and>
   registry_inv env0 (add_motor_raw env0 4 1 0 (- 1) 4 quad_x) \<and>
   registry_inv env0 (add_motor env0 0 90 1 0 quad_x) \<and>
   registry_inv env0 (remove_motor env0 2 quad_x) \<and>
   registry_inv env0 (remove_all_motors env0 quad_x)"
  using registry_invariant_preserved [OF quad_x_inv] quad_x_inv by simp

text \<open>
  Claim C8. For a slot index outside \<open>[0, capacity)\<close>, \<^verbatim>\<open>add_motor_raw\<close> and
  \<^verbatim>\<open>remove_motor\<close> return the state they were given: enabled flags, factors, test
  orders and counter are unchanged. Both return nothing but the state, so no error reaches
  the caller.
\<close>

theorem out_of_range_slot_ignored:
  "\<not> (0 \<le> n \<and> n < int (MAX_NUM_MOTORS e)) \<Longrightarrow>
   add_motor_raw e n r p y t s = s \<and> remove_motor e n s = s"
  by (auto simp: add_motor_raw_def remove_motor_def)

theorem out_of_range_slot_ignored_witness:
  "\<not> (0 \<le> (8::int) \<and> 8 < int (MAX_NUM_MOTORS env0)) \<and>
   add_motor_raw env0 8 1 0 (- 1) 4 quad_x = quad_x \<and>
   remove_motor env0 8 quad_x = quad_x"
proof -
  have h: "\<not> (0 \<le> (8::int) \<and> 8 < int (MAX_NUM_MOTORS env0))" by (simp add: env0_def)
  show ?thesis using h out_of_range_slot_ignored [OF h] by simp
qed

section \<open>The zero-throttle branch\<close>

lemma update_loop_fields:
  "fold (\<lambda>i s. if motor_enabled s i
              then s\<lparr>motor_out := (motor_out s)(i := g i (motor_out s i))\<rparr>
              else s) [0..<n] s
   = s\<lparr>motor_out := (\<lambda>i. if i < n \<and> motor_enabled s i then g i (motor_out s i) else motor_out s i)\<rparr>"
proof (induction n)
  case 0
  then show ?case by simp
next
  case (Suc n)
  have "(\<lambda>i. if i < Suc n \<and> motor_enabled s i then g i (motor_out s i) else motor_out s i)
      = (if motor_enabled s n
         then (\<lambda>i. if i < n \<and> motor_enabled s i then g i (motor_out s i) else motor_out s i)
                (n := g n (motor_out s n))
         else (\<lambda>i. if i < n \<and> motor_enabled s i then g i (motor_out s i) else motor_out s i))"
    by (auto simp: fun_eq_iff less_Suc_eq)
  then show ?case using Suc.IH by simp
qed

lemma update_motor_out_eq:
  "update_motor_out e g s
   = s\<lparr>motor_out := (\<lambda>i. if i < MAX_NUM_MOTORS e \<and> motor_enabled s i
                         then g i (motor_out s i) else motor_out s i)\<rparr>"
  by (simp add: update_motor_out_def for_motors_def update_loop_fields)

lemma send_loop_eq:
  "fold (\<lambda>i tr. if motor_enabled s i
               then tr @ [Write (motor_to_channel_map s i) (motor_out s i)]
               else tr) [0..<n] tr0
   = tr0 @ map (\<lambda>i. Write (motor_to_channel_map s i) (motor_out s i))
              (filter (motor_enabled s) [0..<n])"
  by (induction n) simp_all

lemma send_outputs_eq:
  "send_outputs e s
   = map (\<lambda>i. Write (motor_to_channel_map s i) (motor_out s i)) (enabled_slots e s)"
  by (simp add: send_outputs_def for_motors_def send_loop_eq enabled_slots_def)

lemma armed_begin_fields:
  "motor_enabled (fst (armed_begin e s)) = motor_enabled s"
  "motor_out (fst (armed_begin e s)) = motor_out s"
  "motor_to_channel_map (fst (armed_begin e s)) = motor_to_channel_map s"
  "min_throttle (fst (armed_begin e s)) = min_throttle s"
  "spin_when_armed (fst (armed_begin e s)) = spin_when_armed s"
  "throttle_curve_enabled (fst (armed_begin e s)) = throttle_curve_enabled s"
  "radio_min (rc_throttle (fst (armed_begin e s))) = radio_min (rc_throttle s)"
  "radio_max (rc_throttle (fst (armed_begin e s))) = radio_max (rc_throttle s)"
  "servo_out (rc_throttle (fst (armed_begin e s)))
     = constrain_int16 (servo_out (rc_throttle s)) 0 (max_throttle s)"
  "out_min (snd (armed_begin e s)) = I16 (sint (radio_min (rc_throttle s)) + sint (min_throttle s))"
  "out_max (snd (armed_begin e s)) = radio_max (rc_throttle s)"
  by (simp_all add: armed_begin_def Let_def do_calc_pwm_def)

lemma spin_clamped:
  "sint (if sint (min_throttle s) < sint (if sint (spin_when_armed s) < 0 then 0 else spin_when_armed s)
         then min_throttle s
         else (if sint (spin_when_armed s) < 0 then 0 else spin_when_armed s))
   = clamp (sint (spin_when_armed s)) 0 (sint (min_throttle s))"
  by (simp add: clamp_def min_def max_def)

lemma zero_throttle_fields:
  "spin_when_armed (fst (zero_throttle e (s, l)))
     = (if sint (min_throttle s) < sint (if sint (spin_when_armed s) < 0 then 0 else spin_when_armed s)
         then min_throttle s
         else (if sint (spin_when_armed s) < 0 then 0 else spin_when_armed s))"
  "motor_enabled (fst (zero_throttle e (s, l))) = motor_enabled s"
  "motor_to_channel_map (fst (zero_throttle e (s, l))) = motor_to_channel_map s"
  "limit_roll_pitch (fst (zero_throttle e (s, l)))"
  "limit_yaw (fst (zero_throttle e (s, l)))"
  "limit_throttle (fst (zero_throttle e (s, l)))"
  by (simp_all add: zero_throttle_def Let_def update_motor_out_eq)

lemma zero_throttle_spin:
  "sint (spin_when_armed (fst (zero_throttle e (s, l))))
     = clamp (sint (spin_when_armed s)) 0 (sint (min_throttle s))"
  unfolding zero_throttle_fields(1) by (rule spin_clamped)

lemma zero_throttle_motor_out:
  assumes "i < MAX_NUM_MOTORS e" and "motor_enabled s i"
  shows "motor_out (fst (zero_throttle e (s, l))) i
     = I16 (sint (radio_min (rc_throttle s)) + clamp (sint (spin_when_armed s)) 0 (sint (min_throttle s)))"
proof -
  have "motor_out (fst (zero_throttle e (s, l))) i
      = I16 (sint (radio_min (rc_throttle s)) + sint (spin_when_armed (fst (zero_throttle e (s, l)))))"
    using assms by (simp add: zero_throttle_def Let_def update_motor_out_eq)
  then show ?thesis by (simp only: zero_throttle_spin)
qed

lemma zero_cycle_iff:
  "zero_throttle_cycle e s \<longleftrightarrow> constrain_int16 (servo_out (rc_throttle s)) 0 (max_throttle s) = 0"
  by (simp add: zero_throttle_cycle_def armed_begin_fields)

lemma output_armed_zero:
  assumes "zero_throttle_cycle e s"
  shows "fst (output_armed e s) = fst (zero_throttle e (armed_begin e s))"
    and "snd (output_armed e s) = send_outputs e (fst (zero_throttle e (armed_begin e s)))"
  using assms by (simp_all add: output_armed_def Let_def)

lemma zero_throttle_begin_motor_out:
  assumes "i < MAX_NUM_MOTORS e" and "motor_enabled s i"
  shows "motor_out (fst (zero_throttle e (armed_begin e s))) i
     = I16 (sint (radio_min (rc_throttle s)) + clamp (sint (spin_when_armed s)) 0 (sint (min_throttle s)))"
proof -
  obtain s1 l1 where x: "armed_begin e s = (s1, l1)" by (cases "armed_begin e s")
  have f: "motor_enabled s1 = motor_enabled s" "radio_min (rc_throttle s1) = radio_min (rc_throttle s)"
    "spin_when_armed s1 = spin_when_armed s" "min_throttle s1 = min_throttle s"
    using armed_begin_fields [of e s] by (simp_all add: x)
  show ?thesis
    unfolding x using zero_throttle_motor_out [of i e s1 l1] assms by (simp add: f)
qed

lemma zero_throttle_begin_spin:
  "sint (spin_when_armed (fst (zero_throttle e (armed_begin e s))))
     = clamp (sint (spin_when_armed s)) 0 (sint (min_throttle s))"
proof -
  obtain s1 l1 where x: "armed_begin e s = (s1, l1)" by (cases "armed_begin e s")
  have f: "spin_when_armed s1 = spin_when_armed s" "min_throttle s1 = min_throttle s"
    using armed_begin_fields [of e s] by (simp_all add: x)
  show ?thesis unfolding x zero_throttle_spin by (simp only: f)
qed

lemma zero_throttle_begin_flags:
  "limit_roll_pitch (fst (zero_throttle e (armed_begin e s)))"
  "limit_yaw (fst (zero_throttle e (armed_begin e s)))"
  "limit_throttle (fst (zero_throttle e (armed_begin e s)))"
  "motor_enabled (fst (zero_throttle e (armed_begin e s))) = motor_enabled s"
  "motor_to_channel_map (fst (zero_throttle e (armed_begin e s))) = motor_to_channel_map s"
proof -
  obtain s1 l1 where x: "armed_begin e s = (s1, l1)" by (cases "armed_begin e s")
  have f: "motor_enabled s1 = motor_enabled s" "motor_to_channel_map s1 = motor_to_channel_map s"
    using armed_begin_fields [of e s] by (simp_all add: x)
  show "limit_roll_pitch (fst (zero_throttle e (armed_begin e s)))"
    "limit_yaw (fst (zero_throttle e (armed_begin e s)))"
    "limit_throttle (fst (zero_throttle e (armed_begin e s)))"
    "motor_enabled (fst (zero_throttle e (armed_begin e s))) = motor_enabled s"
    "motor_to_channel_map (fst (zero_throttle e (armed_begin e s))) = motor_to_channel_map s"
    unfolding x by (simp_all add: zero_throttle_fields f)
qed

text \<open>
  Claim C1. In a cycle where the throttle's desired value, clamped into
  \<open>[0, max_throttle]\<close>, is zero, \<^verbatim>\<open>output_armed\<close> sets the output of every enabled motor
  to \<^verbatim>\<open>radio_min + clamp(spin_when_armed, 0, min_throttle)\<close> (the sum as the
  \<^verbatim>\<open>int16_t\<close> that \<^verbatim>\<open>motor_out\<close> holds), writes exactly these values to the actuator,
  and ends with the three limit flags set.
\<close>

theorem zero_throttle_outputs:
  assumes "constrain_int16 (servo_out (rc_throttle s)) 0 (max_throttle s) = 0"
  shows "(\<forall>i < MAX_NUM_MOTORS e. motor_enabled s i \<longrightarrow>
            motor_out (fst (output_armed e s)) i
              = I16 (sint (radio_min (rc_throttle s))
                     + clamp (sint (spin_when_armed s)) 0 (sint (min_throttle s)))) \<and>
         snd (output_armed e s)
           = map (\<lambda>i. Write (motor_to_channel_map s i)
                         (I16 (sint (radio_min (rc_throttle s))
                               + clamp (sint (spin_when_armed s)) 0 (sint (min_throttle s)))))
                 (enabled_slots e s) \<and>
         limit_roll_pitch (fst (output_armed e s)) \<and>
         limit_yaw (fst (output_armed e s)) \<and>
         limit_throttle (fst (output_armed e s))"
proof -
  have z: "zero_throttle_cycle e s" using assms by (simp add: zero_cycle_iff)
  let ?s' = "fst (zero_throttle e (armed_begin e s))"
  have slots: "enabled_slots e ?s' = enabled_slots e s"
    by (simp add: enabled_slots_def zero_throttle_begin_flags)
  have "map (\<lambda>i. Write (motor_to_channel_map ?s' i) (motor_out ?s' i)) (enabled_slots e s)
      = map (\<lambda>i. Write (motor_to_channel_map s i)
                         (I16 (sint (radio_min (rc_throttle s))
                               + clamp (sint (spin_when_armed s)) 0 (sint (min_throttle s)))))
            (enabled_slots e s)"
    by (rule map_cong [OF refl])
       (simp add: enabled_slots_def zero_throttle_begin_motor_out zero_throttle_begin_flags)
  then show ?thesis
    by (simp add: output_armed_zero [OF z] zero_throttle_begin_motor_out
        zero_throttle_begin_flags send_outputs_eq slots)
qed

lemma quad_x_fields:
  "motor_to_channel_map quad_x = (\<lambda>i. i)"
  "rc_throttle quad_x = chan0" "rc_roll quad_x = chan0" "rc_pitch quad_x = chan0"
  "rc_yaw quad_x = chan0"
  "min_throttle quad_x = 100" "max_throttle quad_x = 1000" "hover_out quad_x = 500"
  "spin_when_armed quad_x = 0" "throttle_curve_enabled quad_x = False"
  by (simp_all add: quad_x_def add_motor_def add_motor_raw_def motors0_def env0_def Let_def)

lemma quad_idle_zero:
  "constrain_int16 (servo_out (rc_throttle quad_idle)) 0 (max_throttle quad_idle) = 0"
  by (simp add: quad_idle_def quad_x_fields chan0_def constrain_int16_def)

lemma quad_idle_slots: "enabled_slots env0 quad_idle = [0, 1, 2, 3]"
  using quad_x_slots by (simp add: enabled_slots_def quad_idle_def)

theorem zero_throttle_outputs_witness:
  "constrain_int16 (servo_out (rc_throttle quad_idle)) 0 (max_throttle quad_idle) = 0 \<and>
   motor_out (fst (output_armed env0 quad_idle)) 0 = 1100 \<and>
   motor_out (fst (output_armed env0 quad_idle)) 3 = 1100 \<and>
   snd (output_armed env0 quad_idle) = [Write 0 1100, Write 1 1100, Write 2 1100, Write 3 1100] \<and>
   limit_roll_pitch (fst (output_armed env0 quad_idle)) \<and>
   limit_yaw (fst (output_armed env0 quad_idle)) \<and>
   limit_throttle (fst (output_armed env0 quad_idle))"
proof -
  have v: "I16 (sint (radio_min (rc_throttle quad_idle))
               + clamp (sint (spin_when_armed quad_idle)) 0 (sint (min_throttle quad_idle))) = 1100"
    by (simp add: quad_idle_def quad_x_fields chan0_def clamp_def)
  have en: "(0::nat) < MAX_NUM_MOTORS env0" "(3::nat) < MAX_NUM_MOTORS env0"
    "motor_enabled quad_idle 0" "motor_enabled quad_idle 3"
    by (simp_all add: env0_def quad_idle_def quad_x_enabled)
  have ch: "motor_to_channel_map quad_idle = (\<lambda>i. i)"
    by (simp add: quad_idle_def quad_x_fields)
  show ?thesis
    using zero_throttle_outputs [OF quad_idle_zero, of env0] en quad_idle_zero
    unfolding v quad_idle_slots ch by simp
qed

text \<open>
  Claim C10. In the zero-throttle branch the member \<^verbatim>\<open>_spin_when_armed\<close> itself is
  overwritten: in the state that \<^verbatim>\<open>output_armed\<close> leaves behind, and that every later
  reader sees, it holds the value clamped into \<open>[0, min_throttle]\<close>.
\<close>

theorem spin_when_armed_overwritten:
  assumes "constrain_int16 (servo_out (rc_throttle s)) 0 (max_throttle s) = 0"
  shows "sint (spin_when_armed (fst (output_armed e s)))
           = clamp (sint (spin_when_armed s)) 0 (sint (min_throttle s))"
proof -
  have z: "zero_throttle_cycle e s" using assms by (simp add: zero_cycle_iff)
  show ?thesis by (simp only: output_armed_zero [OF z] zero_throttle_begin_spin)
qed

theorem spin_when_armed_overwritten_witness:
  "constrain_int16 (servo_out (rc_throttle quad_idle)) 0 (max_throttle quad_idle) = 0 \<and>
   sint (spin_when_armed quad_idle) = 150 \<and>
   sint (spin_when_armed (fst (output_armed env0 quad_idle))) = 100"
proof -
  have v: "clamp (sint (spin_when_armed quad_idle)) 0 (sint (min_throttle quad_idle)) = 100"
    by (simp add: quad_idle_def quad_x_fields clamp_def)
  have "sint (spin_when_armed quad_idle) = 150" by (simp add: quad_idle_def)
  then show ?thesis
    using spin_when_armed_overwritten [OF quad_idle_zero, of env0] quad_idle_zero
    unfolding v by simp
qed

section \<open>The general path: what each block leaves alone\<close>

lemma sint_I16: "- 32768 \<le> x \<Longrightarrow> x < 32768 \<Longrightarrow> sint (I16 x) = x"
  by (simp add: sint_sbintrunc' signed_take_bit_int_eq_self)

lemma sint_int16_range: "- 32768 \<le> sint (x::int16_t) \<and> sint x < 32768"
  using sint_ge [of x] sint_lt [of x] by simp

lemma fold_preserves:
  "(\<And>i x. P x \<Longrightarrow> P (f i x)) \<Longrightarrow> P x \<Longrightarrow> P (fold f xs x)"
  by (induction xs arbitrary: x) simp_all

lemma track_low_high_consts: "cycle_consts (track_low_high i l) = cycle_consts l"
  by (simp add: track_low_high_def cycle_consts_def Let_def)

lemma general_roll_pitch_consts:
  "cycle_consts (snd (general_roll_pitch e x)) = cycle_consts (snd x)"
proof -
  obtain s l where x: "x = (s, l)" by (cases x)
  show ?thesis
    unfolding x general_roll_pitch_def for_motors_def Let_def split_conv snd_conv
    by (rule fold_preserves [where P = "\<lambda>l'. cycle_consts l' = cycle_consts l"])
       (simp_all add: track_low_high_consts, simp add: cycle_consts_def)
qed

lemma general_add_yaw_consts:
  "cycle_consts (snd (general_add_yaw e x)) = cycle_consts (snd x)"
proof -
  obtain s l where x: "x = (s, l)" by (cases x)
  show ?thesis
    unfolding x general_add_yaw_def for_motors_def Let_def split_conv snd_conv
    by (rule fold_preserves [where P = "\<lambda>l'. cycle_consts l' = cycle_consts l"])
       (simp_all add: track_low_high_consts, simp add: cycle_consts_def)
qed

lemma general_yaw_room_consts:
  "cycle_consts (snd (general_yaw_room e x)) = cycle_consts (snd x)"
  by (simp add: general_yaw_room_def cycle_consts_def Let_def split_def)

lemma general_yaw_clamp_consts:
  "cycle_consts (snd (general_yaw_clamp e x)) = cycle_consts (snd x)"
  by (simp add: general_yaw_clamp_def cycle_consts_def Let_def split_def)

lemma general_thr_adj_consts:
  "cycle_consts (snd (general_thr_adj e x)) = cycle_consts (snd x)"
  by (simp add: general_thr_adj_def cycle_consts_def Let_def split_def)

lemma general_scale_consts:
  "cycle_consts (snd (general_scale e x)) = cycle_consts (snd x)"
  by (simp add: general_scale_def cycle_consts_def Let_def split_def)

lemma after_scale_consts:
  "cycle_consts (snd (after_scale e s)) = cycle_consts (snd (armed_begin e s))"
  by (simp add: after_scale_def after_thr_adj_def after_add_yaw_def after_yaw_clamp_def
      after_yaw_room_def after_roll_pitch_def general_scale_consts general_thr_adj_consts
      general_add_yaw_consts general_yaw_clamp_consts general_yaw_room_consts
      general_roll_pitch_consts)

text \<open>Before the outputs are computed, the blocks change nothing of the mixer but the limit flags.\<close>

lemma general_roll_pitch_state:
  "flags_cleared (fst (general_roll_pitch e x)) = flags_cleared (fst x)"
  by (simp add: general_roll_pitch_def flags_cleared_def Let_def split_def)

lemma general_yaw_room_state:
  "flags_cleared (fst (general_yaw_room e x)) = flags_cleared (fst x)"
  by (simp add: general_yaw_room_def flags_cleared_def Let_def split_def)

lemma general_yaw_clamp_state:
  "flags_cleared (fst (general_yaw_clamp e x)) = flags_cleared (fst x)"
  by (simp add: general_yaw_clamp_def flags_cleared_def Let_def split_def)

lemma general_add_yaw_state:
  "flags_cleared (fst (general_add_yaw e x)) = flags_cleared (fst x)"
  by (simp add: general_add_yaw_def flags_cleared_def Let_def split_def)

lemma general_thr_adj_state:
  "flags_cleared (fst (general_thr_adj e x)) = flags_cleared (fst x)"
  by (simp add: general_thr_adj_def flags_cleared_def Let_def split_def)

lemma general_scale_state:
  "flags_cleared (fst (general_scale e x)) = flags_cleared (fst x)"
  by (simp add: general_scale_def flags_cleared_def Let_def split_def)

lemmas after_defs = after_scale_def after_thr_adj_def after_add_yaw_def after_yaw_clamp_def
  after_yaw_room_def after_roll_pitch_def

lemmas general_states = general_scale_state general_thr_adj_state general_add_yaw_state
  general_yaw_clamp_state general_yaw_room_state general_roll_pitch_state

lemma after_scale_state:
  "flags_cleared (fst (after_scale e s)) = flags_cleared (fst (armed_begin e s))"
  by (simp add: after_defs general_states)

lemma flags_cleared_fields:
  "motor_enabled (flags_cleared s) = motor_enabled s"
  "motor_out (flags_cleared s) = motor_out s"
  "motor_to_channel_map (flags_cleared s) = motor_to_channel_map s"
  "throttle_curve_enabled (flags_cleared s) = throttle_curve_enabled s"
  "rc_roll (flags_cleared s) = rc_roll s"
  "rc_pitch (flags_cleared s) = rc_pitch s"
  "rc_throttle (flags_cleared s) = rc_throttle s"
  "rc_yaw (flags_cleared s) = rc_yaw s"
  "min_throttle (flags_cleared s) = min_throttle s"
  "hover_out (flags_cleared s) = hover_out s"
  "spin_when_armed (flags_cleared s) = spin_when_armed s"
  "roll_factor (flags_cleared s) = roll_factor s"
  "pitch_factor (flags_cleared s) = pitch_factor s"
  "yaw_factor (flags_cleared s) = yaw_factor s"
  by (simp_all add: flags_cleared_def)

lemma after_scale_enabled:
  "motor_enabled (fst (after_scale e s)) = motor_enabled s"
  using arg_cong [OF after_scale_state, of motor_enabled e s]
  by (simp add: flags_cleared_fields armed_begin_fields)

lemma after_scale_channel_map:
  "motor_to_channel_map (fst (after_scale e s)) = motor_to_channel_map s"
  using arg_cong [OF after_scale_state, of motor_to_channel_map e s]
  by (simp add: flags_cleared_fields armed_begin_fields)

lemma after_scale_bounds:
  "out_min (snd (after_scale e s)) = I16 (sint (radio_min (rc_throttle s)) + sint (min_throttle s))"
  "out_max (snd (after_scale e s)) = radio_max (rc_throttle s)"
  using after_scale_consts [of e s] by (simp_all add: cycle_consts_def armed_begin_fields)

lemma constrain_int16_bounds:
  "sint low \<le> sint high \<Longrightarrow>
   sint low \<le> sint (constrain_int16 amt low high) \<and> sint (constrain_int16 amt low high) \<le> sint high"
  by (simp add: constrain_int16_def)

lemma general_outputs_fields:
  "motor_enabled (fst (general_outputs e x)) = motor_enabled (fst x)"
  "motor_to_channel_map (fst (general_outputs e x)) = motor_to_channel_map (fst x)"
  "limit_roll_pitch (fst (general_outputs e x)) = limit_roll_pitch (fst x)"
  "limit_yaw (fst (general_outputs e x)) = limit_yaw (fst x)"
  "limit_throttle (fst (general_outputs e x)) = limit_throttle (fst x)"
  by (simp_all add: general_outputs_def Let_def split_def update_motor_out_eq)

lemma general_outputs_clipped:
  assumes "i < MAX_NUM_MOTORS e" and "motor_enabled (fst x) i"
  shows "\<exists>v. motor_out (fst (general_outputs e x)) i
              = constrain_int16 v (out_min (snd x)) (out_max (snd x))"
  using assms by (auto simp: general_outputs_def Let_def split_def update_motor_out_eq)

lemma output_armed_general:
  assumes "\<not> zero_throttle_cycle e s"
  shows "fst (output_armed e s) = fst (general_outputs e (after_scale e s))"
  using assms by (simp add: output_armed_def Let_def)

lemma output_armed_enabled: "motor_enabled (fst (output_armed e s)) = motor_enabled s"
  by (cases "zero_throttle_cycle e s")
     (simp_all add: output_armed_zero output_armed_general zero_throttle_begin_flags
        general_outputs_fields after_scale_enabled)

lemma output_armed_channel_map:
  "motor_to_channel_map (fst (output_armed e s)) = motor_to_channel_map s"
  by (cases "zero_throttle_cycle e s")
     (simp_all add: output_armed_zero output_armed_general zero_throttle_begin_flags
        general_outputs_fields after_scale_channel_map)

lemma output_armed_writes:
  "snd (output_armed e s)
   = map (\<lambda>i. Write (motor_to_channel_map s i) (motor_out (fst (output_armed e s)) i))
         (enabled_slots e s)"
proof -
  have "snd (output_armed e s) = send_outputs e (fst (output_armed e s))"
    by (simp add: output_armed_def Let_def)
  then show ?thesis
    by (simp add: send_outputs_eq enabled_slots_def output_armed_enabled output_armed_channel_map)
qed

lemma clamp_bounds: "lo \<le> hi \<Longrightarrow> lo \<le> clamp x lo hi \<and> clamp x lo hi \<le> hi"
  by (simp add: clamp_def)

lemma zero_path_bounds:
  assumes z: "zero_throttle_cycle e s"
    and mt: "0 \<le> sint (min_throttle s)"
    and cfg: "sint (radio_min (rc_throttle s)) + sint (min_throttle s) \<le> sint (radio_max (rc_throttle s))"
    and i: "i < MAX_NUM_MOTORS e" "motor_enabled s i"
  shows "sint (radio_min (rc_throttle s)) \<le> sint (motor_out (fst (output_armed e s)) i) \<and>
         sint (motor_out (fst (output_armed e s)) i) \<le> sint (radio_max (rc_throttle s))"
proof -
  let ?c = "clamp (sint (spin_when_armed s)) 0 (sint (min_throttle s))"
  have c: "0 \<le> ?c \<and> ?c \<le> sint (min_throttle s)" using clamp_bounds [OF mt] .
  have r: "- 32768 \<le> sint (radio_min (rc_throttle s))" "sint (radio_max (rc_throttle s)) < 32768"
    using sint_int16_range by blast+
  have "sint (I16 (sint (radio_min (rc_throttle s)) + ?c)) = sint (radio_min (rc_throttle s)) + ?c"
    by (rule sint_I16) (use c r cfg in linarith)+
  moreover have "motor_out (fst (output_armed e s)) i = I16 (sint (radio_min (rc_throttle s)) + ?c)"
    by (simp only: output_armed_zero [OF z] zero_throttle_begin_motor_out [OF i])
  ultimately have "sint (motor_out (fst (output_armed e s)) i) = sint (radio_min (rc_throttle s)) + ?c"
    by (simp only:)
  then show ?thesis using c cfg by linarith
qed

lemma general_path_bounds:
  assumes z: "\<not> zero_throttle_cycle e s"
    and mt: "0 \<le> sint (min_throttle s)"
    and cfg: "sint (radio_min (rc_throttle s)) + sint (min_throttle s) \<le> sint (radio_max (rc_throttle s))"
    and i: "i < MAX_NUM_MOTORS e" "motor_enabled s i"
  shows "sint (radio_min (rc_throttle s)) + sint (min_throttle s)
           \<le> sint (motor_out (fst (output_armed e s)) i) \<and>
         sint (motor_out (fst (output_armed e s)) i) \<le> sint (radio_max (rc_throttle s))"
proof -
  have r: "- 32768 \<le> sint (radio_min (rc_throttle s))" "sint (radio_max (rc_throttle s)) < 32768"
    using sint_int16_range by blast+
  have lo: "sint (out_min (snd (after_scale e s)))
            = sint (radio_min (rc_throttle s)) + sint (min_throttle s)"
    unfolding after_scale_bounds by (rule sint_I16) (use mt r cfg in linarith)+
  have hi: "out_max (snd (after_scale e s)) = radio_max (rc_throttle s)"
    by (rule after_scale_bounds)
  have en: "motor_enabled (fst (after_scale e s)) i" using i by (simp add: after_scale_enabled)
  obtain v where v: "motor_out (fst (general_outputs e (after_scale e s))) i
      = constrain_int16 v (out_min (snd (after_scale e s))) (out_max (snd (after_scale e s)))"
    using general_outputs_clipped [OF i(1) en] by blast
  have "sint (out_min (snd (after_scale e s))) \<le> sint (out_max (snd (after_scale e s)))"
    using lo hi cfg by simp
  from constrain_int16_bounds [OF this, of v] show ?thesis
    by (simp add: output_armed_general [OF z] v lo hi)
qed

text \<open>
  Claim C2, as amended. When the configuration is sound, that is \<open>0 \<le> min_throttle\<close> and
  \<open>radio_min + min_throttle \<le> radio_max\<close>, every enabled motor's final output lies in
  \<open>[radio_min, radio_max]\<close> on both paths, and in \<open>[radio_min + min_throttle, radio_max]\<close>
  on the general path; the values written to the actuator are these outputs, one write
  per enabled motor.
\<close>

theorem outputs_within_bounds:
  assumes "0 \<le> sint (min_throttle s)"
    and "sint (radio_min (rc_throttle s)) + sint (min_throttle s) \<le> sint (radio_max (rc_throttle s))"
  shows "(\<forall>i < MAX_NUM_MOTORS e. motor_enabled s i \<longrightarrow>
            sint (radio_min (rc_throttle s)) \<le> sint (motor_out (fst (output_armed e s)) i) \<and>
            sint (motor_out (fst (output_armed e s)) i) \<le> sint (radio_max (rc_throttle s)) \<and>
            (\<not> zero_throttle_cycle e s \<longrightarrow>
               sint (radio_min (rc_throttle s)) + sint (min_throttle s)
                 \<le> sint (motor_out (fst (output_armed e s)) i))) \<and>
         snd (output_armed e s)
           = map (\<lambda>i. Write (motor_to_channel_map s i) (motor_out (fst (output_armed e s)) i))
                 (enabled_slots e s)"
proof -
  have "sint (radio_min (rc_throttle s)) \<le> sint (motor_out (fst (output_armed e s)) i) \<and>
        sint (motor_out (fst (output_armed e s)) i) \<le> sint (radio_max (rc_throttle s)) \<and>
        (\<not> zero_throttle_cycle e s \<longrightarrow>
           sint (radio_min (rc_throttle s)) + sint (min_throttle s)
             \<le> sint (motor_out (fst (output_armed e s)) i))"
    if "i < MAX_NUM_MOTORS e" "motor_enabled s i" for i
  proof (cases "zero_throttle_cycle e s")
    case True
    then show ?thesis using zero_path_bounds [OF True assms that] by simp
  next
    case False
    then show ?thesis using general_path_bounds [OF False assms that] assms(1) by simp
  qed
  then show ?thesis using output_armed_writes by blast
qed

lemma quad_narrow_zero: "zero_throttle_cycle env0 quad_narrow"
  by (simp add: zero_cycle_iff quad_narrow_def quad_x_fields chan0_def constrain_int16_def)

lemma quad_narrow_enabled: "motor_enabled quad_narrow 0"
  by (simp add: quad_narrow_def quad_x_enabled)

theorem outputs_within_bounds_counterexample:
  "0 < MAX_NUM_MOTORS env0 \<and> motor_enabled quad_narrow 0 \<and>
   \<not> (sint (motor_out (fst (output_armed env0 quad_narrow)) 0)
        \<le> sint (radio_max (rc_throttle quad_narrow)))"
proof -
  have m: "(0::nat) < MAX_NUM_MOTORS env0" by (simp add: env0_def)
  have "motor_out (fst (output_armed env0 quad_narrow)) 0
      = I16 (sint (radio_min (rc_throttle quad_narrow))
             + clamp (sint (spin_when_armed quad_narrow)) 0 (sint (min_throttle quad_narrow)))"
    by (simp only: output_armed_zero [OF quad_narrow_zero]
        zero_throttle_begin_motor_out [OF m quad_narrow_enabled])
  also have "\<dots> = 1230" by (simp add: quad_narrow_def chan0_def clamp_def)
  finally have "sint (motor_out (fst (output_armed env0 quad_narrow)) 0) = 1230" by simp
  moreover have "sint (radio_max (rc_throttle quad_narrow)) = 1200"
    by (simp add: quad_narrow_def chan0_def)
  ultimately show ?thesis using m quad_narrow_enabled by simp
qed

lemma quad_mid_general: "\<not> zero_throttle_cycle env0 quad_mid"
  by (simp add: zero_cycle_iff quad_mid_def quad_x_fields chan0_def constrain_int16_def)

theorem outputs_within_bounds_witness:
  "0 \<le> sint (min_throttle quad_mid) \<and>
   sint (radio_min (rc_throttle quad_mid)) + sint (min_throttle quad_mid)
     \<le> sint (radio_max (rc_throttle quad_mid)) \<and>
   1100 \<le> sint (motor_out (fst (output_armed env0 quad_mid)) 0) \<and>
   sint (motor_out (fst (output_armed env0 quad_mid)) 0) \<le> 2000 \<and>
   1000 \<le> sint (motor_out (fst (output_armed env0 quad_idle)) 0) \<and>
   sint (motor_out (fst (output_armed env0 quad_idle)) 0) \<le> 2000"
proof -
  have h: "0 \<le> sint (min_throttle quad_mid)"
    "sint (radio_min (rc_throttle quad_mid)) + sint (min_throttle quad_mid)
       \<le> sint (radio_max (rc_throttle quad_mid))"
    by (simp_all add: quad_mid_def quad_x_fields chan0_def)
  have k: "0 \<le> sint (min_throttle quad_idle)"
    "sint (radio_min (rc_throttle quad_idle)) + sint (min_throttle quad_idle)
       \<le> sint (radio_max (rc_throttle quad_idle))"
    by (simp_all add: quad_idle_def quad_x_fields chan0_def)
  have en: "(0::nat) < MAX_NUM_MOTORS env0" "motor_enabled quad_mid 0" "motor_enabled quad_idle 0"
    by (simp_all add: env0_def quad_mid_def quad_idle_def quad_x_enabled)
  have v: "sint (radio_min (rc_throttle quad_mid)) = 1000" "sint (min_throttle quad_mid) = 100"
    "sint (radio_max (rc_throttle quad_mid)) = 2000"
    "sint (radio_min (rc_throttle quad_idle)) = 1000" "sint (min_throttle quad_idle) = 100"
    "sint (radio_max (rc_throttle quad_idle)) = 2000"
    by (simp_all add: quad_mid_def quad_idle_def quad_x_fields chan0_def)
  show ?thesis
    using outputs_within_bounds [OF h, of env0] outputs_within_bounds [OF k, of env0]
      en quad_mid_general h
    unfolding v by simp
qed

section \<open>The general path, block by block\<close>

lemma flags_cleared_eq_fields:
  assumes "flags_cleared a = flags_cleared b"
  shows "motor_enabled a = motor_enabled b" "rc_roll a = rc_roll b" "rc_pitch a = rc_pitch b"
    "rc_throttle a = rc_throttle b" "rc_yaw a = rc_yaw b" "hover_out a = hover_out b"
    "throttle_curve_enabled a = throttle_curve_enabled b" "motor_out a = motor_out b"
    "roll_factor a = roll_factor b" "pitch_factor a = pitch_factor b" "yaw_factor a = yaw_factor b"
    "min_throttle a = min_throttle b"
proof -
  show "motor_enabled a = motor_enabled b"
    using arg_cong [OF assms, of motor_enabled] by (simp add: flags_cleared_fields)
  show "rc_roll a = rc_roll b"
    using arg_cong [OF assms, of rc_roll] by (simp add: flags_cleared_fields)
  show "rc_pitch a = rc_pitch b"
    using arg_cong [OF assms, of rc_pitch] by (simp add: flags_cleared_fields)
  show "rc_throttle a = rc_throttle b"
    using arg_cong [OF assms, of rc_throttle] by (simp add: flags_cleared_fields)
  show "rc_yaw a = rc_yaw b"
    using arg_cong [OF assms, of rc_yaw] by (simp add: flags_cleared_fields)
  show "hover_out a = hover_out b"
    using arg_cong [OF assms, of hover_out] by (simp add: flags_cleared_fields)
  show "throttle_curve_enabled a = throttle_curve_enabled b"
    using arg_cong [OF assms, of throttle_curve_enabled] by (simp add: flags_cleared_fields)
  show "motor_out a = motor_out b"
    using arg_cong [OF assms, of motor_out] by (simp add: flags_cleared_fields)
  show "roll_factor a = roll_factor b"
    using arg_cong [OF assms, of roll_factor] by (simp add: flags_cleared_fields)
  show "pitch_factor a = pitch_factor b"
    using arg_cong [OF assms, of pitch_factor] by (simp add: flags_cleared_fields)
  show "yaw_factor a = yaw_factor b"
    using arg_cong [OF assms, of yaw_factor] by (simp add: flags_cleared_fields)
  show "min_throttle a = min_throttle b"
    using arg_cong [OF assms, of min_throttle] by (simp add: flags_cleared_fields)
qed

lemma after_states:
  "flags_cleared (fst (after_roll_pitch e s)) = flags_cleared (fst (armed_begin e s))"
  "flags_cleared (fst (after_yaw_room e s)) = flags_cleared (fst (armed_begin e s))"
  "flags_cleared (fst (after_yaw_clamp e s)) = flags_cleared (fst (armed_begin e s))"
  "flags_cleared (fst (after_add_yaw e s)) = flags_cleared (fst (armed_begin e s))"
  "flags_cleared (fst (after_thr_adj e s)) = flags_cleared (fst (armed_begin e s))"
  by (simp_all add: after_defs general_states)

lemma f2i16_of_int16: "f2i16 u (Finite (real_of_int (sint (x::int16_t)))) = x"
proof -
  define k where "k = sint x"
  have k: "- 32768 \<le> k" "k < 32768" using sint_int16_range [of x] by (simp_all add: k_def)
  have "real_of_int (- 32769) < real_of_int k" "real_of_int k < real_of_int 32768"
    using k by (simp_all only: of_int_less_iff)
  then have "- 32769 < real_of_int k \<and> real_of_int k < 32768" by simp
  moreover have "I16 k = x" by (simp add: k_def)
  ultimately have "f2i16 u (Finite (real_of_int k)) = x" by (simp add: f2i16_def trunc_def)
  then show ?thesis by (simp only: k_def)
qed

lemma f2i16_zero: "f2i16 u (Finite 0) = 0"
  by (simp add: f2i16_def trunc_def)

text \<open>With roll and pitch neutral, the first loop finds every command at zero.\<close>

lemma neutral_roll_pitch_locals:
  assumes "pwm_out (rc_roll s) = 0" and "pwm_out (rc_pitch s) = 0"
    and "rpy_out l = (\<lambda>i. 0)" and "rpy_low l = 0" and "rpy_high l = 0"
  shows "snd (general_roll_pitch e (s, l)) = l"
proof -
  have r0: "rpy_out l i = 0" for i using assms(3) by simp
  have body: "track_low_high i (l\<lparr>rpy_out := (rpy_out l)(i := f2i16 (undef_cast e) (Finite 0))\<rparr>) = l"
    for i
  proof -
    have "(rpy_out l)(i := 0) = rpy_out l" using assms(3) by (simp add: fun_eq_iff)
    then show ?thesis using assms(4,5) r0 by (simp add: track_low_high_def f2i16_zero)
  qed
  show ?thesis
    unfolding general_roll_pitch_def for_motors_def Let_def split_conv snd_conv
    by (rule fold_preserves [where P = "\<lambda>l'. l' = l"]) (simp_all add: assms(1,2) body)
qed

text \<open>With no yaw to add, the second loop changes no command.\<close>

lemma neutral_add_yaw:
  assumes "yaw_allowed l = 0" and "rpy_out l = (\<lambda>i. 0)" and "rpy_low l = 0" and "rpy_high l = 0"
  shows "general_add_yaw e (s, l) = (s, l)"
proof -
  have r0: "rpy_out l i = 0" for i using assms(2) by simp
  have body: "track_low_high i (l\<lparr>rpy_out := (rpy_out l)(i := f2i16 (undef_cast e) (Finite 0))\<rparr>) = l"
    for i
  proof -
    have "(rpy_out l)(i := 0) = rpy_out l" using assms(2) by (simp add: fun_eq_iff)
    then show ?thesis using assms(3,4) r0 by (simp add: track_low_high_def f2i16_zero)
  qed
  have "fold (\<lambda>i l. if motor_enabled s i then
                          track_low_high i
                            (l\<lparr>rpy_out := (rpy_out l)(i :=
                                 f2i16 (undef_cast e)
                                   (Finite (real_of_int (sint (rpy_out l i)) +
                                            real_of_int (sint (yaw_allowed l)) * yaw_factor s i)))\<rparr>)
                        else l) [0..<MAX_NUM_MOTORS e] l = l"
    by (rule fold_preserves [where P = "\<lambda>l'. l' = l"]) (simp_all add: assms(1) r0 body)
  then show ?thesis by (simp add: general_add_yaw_def for_motors_def)
qed

lemma track_low_high_ok: "low_high_ok l \<Longrightarrow> low_high_ok (track_low_high i l)"
  by (simp add: low_high_ok_def track_low_high_def Let_def)

lemma low_high_ok_rpy_out [simp]: "low_high_ok (l\<lparr>rpy_out := f\<rparr>) = low_high_ok l"
  by (simp add: low_high_ok_def)

lemma general_roll_pitch_ok:
  "low_high_ok (snd x) \<Longrightarrow> low_high_ok (snd (general_roll_pitch e x))"
proof -
  assume a: "low_high_ok (snd x)"
  obtain s l where x: "x = (s, l)" by (cases x)
  show ?thesis
    unfolding x general_roll_pitch_def for_motors_def Let_def split_conv snd_conv
    by (rule fold_preserves [where P = low_high_ok]) (use a x in \<open>simp_all add: track_low_high_ok\<close>)
qed

lemma general_add_yaw_ok:
  "low_high_ok (snd x) \<Longrightarrow> low_high_ok (snd (general_add_yaw e x))"
proof -
  assume a: "low_high_ok (snd x)"
  obtain s l where x: "x = (s, l)" by (cases x)
  show ?thesis
    unfolding x general_add_yaw_def for_motors_def Let_def split_conv snd_conv
    by (rule fold_preserves [where P = low_high_ok]) (use a x in \<open>simp_all add: track_low_high_ok\<close>)
qed

lemma other_blocks_ok:
  "low_high_ok (snd (general_yaw_room e x)) = low_high_ok (snd x)"
  "low_high_ok (snd (general_yaw_clamp e x)) = low_high_ok (snd x)"
  "low_high_ok (snd (general_thr_adj e x)) = low_high_ok (snd x)"
  by (simp_all add: general_yaw_room_def general_yaw_clamp_def general_thr_adj_def
      low_high_ok_def Let_def split_def)

lemma armed_begin_ok: "low_high_ok (snd (armed_begin e s))"
  by (simp add: armed_begin_def low_high_ok_def Let_def)

lemma after_thr_adj_ok: "low_high_ok (snd (after_thr_adj e s))"
  by (simp add: after_thr_adj_def after_add_yaw_def after_yaw_clamp_def after_yaw_room_def
      after_roll_pitch_def other_blocks_ok general_add_yaw_ok general_roll_pitch_ok armed_begin_ok)

text \<open>Until the scale block, the scale is the 1.0 of its declaration.\<close>

lemma track_low_high_scale: "rpy_scale (track_low_high i l) = rpy_scale l"
  by (simp add: track_low_high_def Let_def)

lemma loops_scale:
  "rpy_scale (snd (general_roll_pitch e x)) = rpy_scale (snd x)"
  "rpy_scale (snd (general_add_yaw e x)) = rpy_scale (snd x)"
proof -
  obtain s l where x: "x = (s, l)" by (cases x)
  show "rpy_scale (snd (general_roll_pitch e x)) = rpy_scale (snd x)"
    unfolding x general_roll_pitch_def for_motors_def Let_def split_conv snd_conv
    by (rule fold_preserves [where P = "\<lambda>l'. rpy_scale l' = rpy_scale l"])
       (simp_all add: track_low_high_scale)
  show "rpy_scale (snd (general_add_yaw e x)) = rpy_scale (snd x)"
    unfolding x general_add_yaw_def for_motors_def Let_def split_conv snd_conv
    by (rule fold_preserves [where P = "\<lambda>l'. rpy_scale l' = rpy_scale l"])
       (simp_all add: track_low_high_scale)
qed

lemma other_blocks_scale:
  "rpy_scale (snd (general_yaw_room e x)) = rpy_scale (snd x)"
  "rpy_scale (snd (general_yaw_clamp e x)) = rpy_scale (snd x)"
  "rpy_scale (snd (general_thr_adj e x)) = rpy_scale (snd x)"
  by (simp_all add: general_yaw_room_def general_yaw_clamp_def general_thr_adj_def
      Let_def split_def)

lemma after_thr_adj_scale: "rpy_scale (snd (after_thr_adj e s)) = Finite 1"
  by (simp add: after_thr_adj_def after_add_yaw_def after_yaw_clamp_def after_yaw_room_def
      after_roll_pitch_def other_blocks_scale loops_scale armed_begin_def Let_def)

text \<open>
  The scale block: the quotient is at most 1 unless the low bound is violated while the
  lowest command is zero, where the division is by zero.
\<close>

lemma fdiv_le_one:
  "d < 0 \<Longrightarrow> d \<le> n \<Longrightarrow> fle (fdiv n d) 1"
  "0 < d \<Longrightarrow> n \<le> d \<Longrightarrow> fle (fdiv n d) 1"
  "n < 0 \<Longrightarrow> fle (fdiv n 0) 1"
  by (simp_all add: fdiv_def neg_divide_le_eq pos_divide_le_eq)

lemma general_scale_rpy_scale:
  "rpy_scale (snd (general_scale e (s, l)))
   = (if (sint (rpy_low l) + sint (out_max_range l)) + sint (thr_adj l) < sint (out_min l)
      then fdiv (real_of_int (sint (out_min l) - sint (thr_adj l) - sint (out_max_range l)))
                (real_of_int (sint (rpy_low l)))
      else if sint (out_max l) < (sint (rpy_high l) + sint (out_max_range l)) + sint (thr_adj l)
      then fdiv (real_of_int (sint (out_max l) - sint (thr_adj l) - sint (out_max_range l)))
                (real_of_int (sint (rpy_high l)))
      else rpy_scale l)"
  by (simp add: general_scale_def)

lemma general_scale_le_one:
  assumes ok: "low_high_ok l" and one: "rpy_scale l = Finite 1"
    and nz: "\<not> ((sint (rpy_low l) + sint (out_max_range l)) + sint (thr_adj l) < sint (out_min l)
               \<and> sint (rpy_low l) = 0)"
  shows "fle (rpy_scale (snd (general_scale e (s, l)))) 1"
proof (cases "(sint (rpy_low l) + sint (out_max_range l)) + sint (thr_adj l) < sint (out_min l)")
  case True
  define d where "d = sint (rpy_low l)"
  define n where "n = sint (out_min l) - sint (thr_adj l) - sint (out_max_range l)"
  have "d < 0" "d \<le> n" using ok nz True by (simp_all add: low_high_ok_def d_def n_def)
  then have "real_of_int d < 0" "real_of_int d \<le> real_of_int n" by simp_all
  then have "fle (fdiv (real_of_int n) (real_of_int d)) 1" by (rule fdiv_le_one(1))
  then show ?thesis unfolding general_scale_rpy_scale d_def n_def using True by (simp only: if_True)
next
  case False
  show ?thesis
  proof (cases "sint (out_max l) < (sint (rpy_high l) + sint (out_max_range l)) + sint (thr_adj l)")
    case hi: True
    define d where "d = sint (rpy_high l)"
    define n where "n = sint (out_max l) - sint (thr_adj l) - sint (out_max_range l)"
    have dn: "0 \<le> d" "n < d" using ok hi by (simp_all add: low_high_ok_def d_def n_def)
    have "fle (fdiv (real_of_int n) (real_of_int d)) 1"
    proof (cases "d = 0")
      case True
      then have "real_of_int n < 0" using dn by simp
      then show ?thesis unfolding True of_int_0 by (rule fdiv_le_one(3))
    next
      case False
      then have "0 < real_of_int d" "real_of_int n \<le> real_of_int d" using dn by simp_all
      then show ?thesis by (rule fdiv_le_one(2))
    qed
    then show ?thesis
      unfolding general_scale_rpy_scale d_def n_def using False hi by (simp only: if_True if_False)
  next
    case lo: False
    show ?thesis
      unfolding general_scale_rpy_scale using False lo one by (simp only: if_False fle.simps)
  qed
qed

lemma scale_le_one_unless_zero_divisor:
  assumes "\<not> ((sint (rpy_low (snd (after_thr_adj e s))) + sint (out_max_range (snd (after_thr_adj e s))))
               + sint (thr_adj (snd (after_thr_adj e s))) < sint (out_min (snd (after_thr_adj e s)))
             \<and> sint (rpy_low (snd (after_thr_adj e s))) = 0)"
  shows "fle (rpy_scale (snd (after_scale e s))) 1"
proof -
  obtain s1 l1 where x: "after_thr_adj e s = (s1, l1)" by (cases "after_thr_adj e s")
  have "fle (rpy_scale (snd (general_scale e (s1, l1)))) 1"
    by (rule general_scale_le_one)
       (use after_thr_adj_ok [of e s] after_thr_adj_scale [of e s] assms x in simp_all)
  then show ?thesis by (simp add: after_scale_def x)
qed

section \<open>Cycles with neutral roll, pitch and yaw\<close>

lemma c_div_zero [simp]: "c_div 0 2 = 0"
  by (simp add: c_div_def)

lemma armed_begin_locals:
  "rpy_out (snd (armed_begin e s)) = (\<lambda>i. 0)"
  "rpy_low (snd (armed_begin e s)) = 0"
  "rpy_high (snd (armed_begin e s)) = 0"
  "rpy_scale (snd (armed_begin e s)) = Finite 1"
  "out_mid (snd (armed_begin e s))
     = I16 (c_div (sint (I16 (sint (radio_min (rc_throttle s)) + sint (min_throttle s)))
                   + sint (radio_max (rc_throttle s))) 2)"
  by (simp_all add: armed_begin_def Let_def)

lemma armed_begin_flags:
  "\<not> limit_roll_pitch (fst (armed_begin e s))"
  "\<not> limit_yaw (fst (armed_begin e s))"
  "\<not> limit_throttle (fst (armed_begin e s))"
  "hover_out (fst (armed_begin e s)) = hover_out s"
  by (simp_all add: armed_begin_def Let_def)

lemma neutral_room_nonneg:
  assumes "0 \<le> YAW_LOWER_LIMIT_PWM e" and "YAW_LOWER_LIMIT_PWM e \<le> 32767"
  shows "0 \<le> sint (neutral_room e l ro h)"
proof -
  let ?x = "sint (I16 (min (sint (out_max l) - sint (neutral_range l ro h))
                              (sint (neutral_range l ro h) - sint (out_min l))))"
  have "- 32768 \<le> ?x \<and> ?x < 32768" by (rule sint_int16_range)
  then have "0 \<le> max ?x (YAW_LOWER_LIMIT_PWM e) \<and> max ?x (YAW_LOWER_LIMIT_PWM e) < 32768"
    using assms by (simp add: max_def)
  then have "sint (I16 (max ?x (YAW_LOWER_LIMIT_PWM e))) = max ?x (YAW_LOWER_LIMIT_PWM e)"
    by (intro sint_I16) linarith+
  then show ?thesis using assms unfolding neutral_room_def by (simp only:)
qed

lemma neutral_after_add_yaw:
  assumes roll: "pwm_out (rc_roll (fst (armed_begin e s))) = 0"
    and pitch: "pwm_out (rc_pitch (fst (armed_begin e s))) = 0"
    and yaw: "pwm_out (rc_yaw (fst (armed_begin e s))) = 0"
    and lim: "0 \<le> YAW_LOWER_LIMIT_PWM e" "YAW_LOWER_LIMIT_PWM e \<le> 32767"
  shows "snd (after_add_yaw e s)
         = (snd (armed_begin e s))
             \<lparr>out_max_range := neutral_range (snd (armed_begin e s))
                                 (radio_out (rc_throttle (fst (armed_begin e s)))) (hover_out s),
              yaw_allowed := 0\<rparr>"
    and "limit_yaw (fst (after_add_yaw e s))
         \<longleftrightarrow> sint (neutral_room e (snd (armed_begin e s))
                     (radio_out (rc_throttle (fst (armed_begin e s)))) (hover_out s)) = 0"
    and "limit_throttle (fst (after_add_yaw e s))
         \<longleftrightarrow> sint (radio_out (rc_throttle (fst (armed_begin e s))))
               < sint (out_min (snd (armed_begin e s)))"
    and "\<not> limit_roll_pitch (fst (after_add_yaw e s))"
proof -
  obtain b l0 where b: "armed_begin e s = (b, l0)" by (cases "armed_begin e s")
  have l0: "rpy_out l0 = (\<lambda>i. 0)" "rpy_low l0 = 0" "rpy_high l0 = 0"
    using armed_begin_locals [of e s] by (simp_all add: b)
  have fl: "\<not> limit_roll_pitch b" "\<not> limit_yaw b" "\<not> limit_throttle b" "hover_out b = hover_out s"
    using armed_begin_flags [of e s] by (simp_all add: b)
  have n: "pwm_out (rc_roll b) = 0" "pwm_out (rc_pitch b) = 0" "pwm_out (rc_yaw b) = 0"
    using roll pitch yaw by (simp_all add: b)
  define ro where "ro = radio_out (rc_throttle b)"
  define s1 where "s1 = (if sint ro < sint (out_min l0) then b\<lparr>limit_throttle := True\<rparr> else b)"
  have rp: "after_roll_pitch e s = (s1, l0)"
  proof (rule prod_eqI)
    show "fst (after_roll_pitch e s) = fst (s1, l0)"
      by (simp add: after_roll_pitch_def b general_roll_pitch_def Let_def s1_def ro_def)
    show "snd (after_roll_pitch e s) = snd (s1, l0)"
      unfolding after_roll_pitch_def b using neutral_roll_pitch_locals [OF n(1,2) l0] by simp
  qed
  have s1: "radio_out (rc_throttle s1) = ro" "hover_out s1 = hover_out s" "pwm_out (rc_yaw s1) = 0"
    "\<not> limit_roll_pitch s1" "\<not> limit_yaw s1"
    "limit_throttle s1 \<longleftrightarrow> sint ro < sint (out_min l0)"
    using fl n by (simp_all add: s1_def ro_def)
  define omr where "omr = neutral_range l0 ro (hover_out s)"
  define room where "room = neutral_room e l0 ro (hover_out s)"
  have yr: "after_yaw_room e s = (s1, l0\<lparr>out_max_range := omr, yaw_allowed := room\<rparr>)"
    by (simp add: after_yaw_room_def rp general_yaw_room_def Let_def l0 s1 omr_def room_def
        neutral_range_def neutral_room_def)
  have room0: "0 \<le> sint room" unfolding room_def by (rule neutral_room_nonneg [OF lim])
  define s2 where "s2 = (if 0 < sint room then s1 else s1\<lparr>limit_yaw := True\<rparr>)"
  have yc: "after_yaw_clamp e s = (s2, l0\<lparr>out_max_range := omr, yaw_allowed := 0\<rparr>)"
  proof (cases "0 < sint room")
    case True
    then show ?thesis
      by (simp add: after_yaw_clamp_def yr general_yaw_clamp_def Let_def s1 s2_def)
  next
    case False
    then have "sint room = 0" using room0 by linarith
    moreover have "room = I16 (sint room)" by simp
    ultimately have "room = 0" by (simp only: word_of_int_0)
    then show ?thesis
      by (simp add: after_yaw_clamp_def yr general_yaw_clamp_def Let_def s1 s2_def)
  qed
  have ay: "after_add_yaw e s = (s2, l0\<lparr>out_max_range := omr, yaw_allowed := 0\<rparr>)"
    unfolding after_add_yaw_def yc by (rule neutral_add_yaw) (simp_all add: l0)
  show "snd (after_add_yaw e s)
         = (snd (armed_begin e s))
             \<lparr>out_max_range := neutral_range (snd (armed_begin e s))
                                 (radio_out (rc_throttle (fst (armed_begin e s)))) (hover_out s),
              yaw_allowed := 0\<rparr>"
    by (simp add: ay b omr_def ro_def)
  show "limit_yaw (fst (after_add_yaw e s))
         \<longleftrightarrow> sint (neutral_room e (snd (armed_begin e s))
                     (radio_out (rc_throttle (fst (armed_begin e s)))) (hover_out s)) = 0"
    using room0 s1 by (auto simp: ay b s2_def room_def ro_def)
  show "limit_throttle (fst (after_add_yaw e s))
         \<longleftrightarrow> sint (radio_out (rc_throttle (fst (armed_begin e s))))
               < sint (out_min (snd (armed_begin e s)))"
    using s1 by (simp add: ay b s2_def ro_def)
  show "\<not> limit_roll_pitch (fst (after_add_yaw e s))"
    using s1 by (simp add: ay b s2_def)
qed

lemma quad_low_general: "\<not> zero_throttle_cycle env0 quad_low"
  by (simp add: zero_cycle_iff quad_low_def quad_x_fields chan0_def constrain_int16_def)

lemma quad_low_begin:
  "snd (armed_begin env0 quad_low)
   = \<lparr>out_min = 1100, out_max = 2000, out_mid = 1550, out_max_range = 0, rpy_scale = Finite 1,
      rpy_out = (\<lambda>i. 0), rpy_low = 0, rpy_high = 0, yaw_allowed = 0, thr_adj = 0\<rparr>"
  "pwm_out (rc_roll (fst (armed_begin env0 quad_low))) = 0"
  "pwm_out (rc_pitch (fst (armed_begin env0 quad_low))) = 0"
  "pwm_out (rc_yaw (fst (armed_begin env0 quad_low))) = 0"
  "radio_out (rc_throttle (fst (armed_begin env0 quad_low))) = 1050"
  "hover_out quad_low = 500"
  by (simp_all add: armed_begin_def quad_low_def quad_x_fields chan0_def env0_def c_div_def
      do_calc_pwm_def Let_def)

lemma quad_low_after_thr_adj:
  "snd (after_thr_adj env0 quad_low)
   = \<lparr>out_min = 1100, out_max = 2000, out_mid = 1550, out_max_range = 1050, rpy_scale = Finite 1,
      rpy_out = (\<lambda>i. 0), rpy_low = 0, rpy_high = 0, yaw_allowed = 0, thr_adj = 0\<rparr>"
proof -
  have lim: "0 \<le> YAW_LOWER_LIMIT_PWM env0" "YAW_LOWER_LIMIT_PWM env0 \<le> 32767"
    by (simp_all add: env0_def)
  have ay: "snd (after_add_yaw env0 quad_low)
    = \<lparr>out_min = 1100, out_max = 2000, out_mid = 1550, out_max_range = 1050, rpy_scale = Finite 1,
      rpy_out = (\<lambda>i. 0), rpy_low = 0, rpy_high = 0, yaw_allowed = 0, thr_adj = 0\<rparr>"
    unfolding neutral_after_add_yaw(1) [OF quad_low_begin(2,3,4) lim] quad_low_begin
    by (simp add: neutral_range_def c_div_def)
  have ro: "radio_out (rc_throttle (fst (after_add_yaw env0 quad_low))) = 1050"
    using flags_cleared_eq_fields(4) [OF after_states(4), of env0 quad_low] quad_low_begin(5)
    by simp
  show ?thesis
    by (simp add: after_thr_adj_def general_thr_adj_def split_def Let_def ay ro)
qed

lemma quad_low_scale: "rpy_scale (snd (after_scale env0 quad_low)) = PInf"
proof -
  obtain s1 where x: "after_thr_adj env0 quad_low = (s1, snd (after_thr_adj env0 quad_low))"
    by (cases "after_thr_adj env0 quad_low") simp
  have "rpy_scale (snd (general_scale env0 (s1, snd (after_thr_adj env0 quad_low)))) = PInf"
    unfolding general_scale_rpy_scale quad_low_after_thr_adj by (simp add: fdiv_def)
  then show ?thesis unfolding after_scale_def using x by simp
qed

text \<open>
  Claim C5. There is an input of the general path on which the last-resort scale divides
  by zero: the test of the low bound holds while its divisor \<^verbatim>\<open>rpy_low\<close> is zero, and the
  scale factor that results is infinite.
\<close>

theorem scale_division_by_zero:
  "\<exists>e s. \<not> zero_throttle_cycle e s \<and>
          (sint (rpy_low (snd (after_thr_adj e s))) + sint (out_max_range (snd (after_thr_adj e s))))
            + sint (thr_adj (snd (after_thr_adj e s))) < sint (out_min (snd (after_thr_adj e s))) \<and>
          sint (rpy_low (snd (after_thr_adj e s))) = 0 \<and>
          rpy_scale (snd (after_scale e s)) = PInf"
proof (intro exI conjI)
  show "\<not> zero_throttle_cycle env0 quad_low" by (rule quad_low_general)
  show "(sint (rpy_low (snd (after_thr_adj env0 quad_low)))
          + sint (out_max_range (snd (after_thr_adj env0 quad_low))))
          + sint (thr_adj (snd (after_thr_adj env0 quad_low)))
        < sint (out_min (snd (after_thr_adj env0 quad_low)))"
    unfolding quad_low_after_thr_adj by simp
  show "sint (rpy_low (snd (after_thr_adj env0 quad_low))) = 0"
    unfolding quad_low_after_thr_adj by simp
  show "rpy_scale (snd (after_scale env0 quad_low)) = PInf" by (rule quad_low_scale)
qed

text \<open>
  Claim C4 says that the scale factor of the last-resort step never exceeds 1.0. On the
  low-throttle frame the code computes \<open>50 / 0\<close>, which is plus infinity and not at most
  1.0.
\<close>

theorem scale_exceeds_one_at_low_throttle:
  "\<not> zero_throttle_cycle env0 quad_low \<and>
   rpy_scale (snd (after_scale env0 quad_low)) = PInf \<and>
   \<not> fle (rpy_scale (snd (after_scale env0 quad_low))) 1"
  by (simp add: quad_low_general quad_low_scale)

section \<open>The mid-throttle scenario\<close>

lemma mid_throttle_cycle:
  assumes cfg: "radio_min (rc_throttle s) = 1000" "radio_max (rc_throttle s) = 2000"
      "min_throttle s = 100"
    and roll: "pwm_out (rc_roll (fst (armed_begin e s))) = 0"
    and pitch: "pwm_out (rc_pitch (fst (armed_begin e s))) = 0"
    and yaw: "pwm_out (rc_yaw (fst (armed_begin e s))) = 0"
    and thr: "radio_out (rc_throttle (fst (armed_begin e s))) = 1500"
    and gen: "\<not> zero_throttle_cycle e s"
    and nc: "\<not> throttle_curve_enabled s"
    and lim: "0 \<le> YAW_LOWER_LIMIT_PWM e" "YAW_LOWER_LIMIT_PWM e \<le> 32767"
  shows "i < MAX_NUM_MOTORS e \<Longrightarrow> motor_enabled s i \<Longrightarrow>
           motor_out (fst (output_armed e s)) i = 1500"
    and "\<not> limit_roll_pitch (fst (output_armed e s))"
    and "\<not> limit_yaw (fst (output_armed e s))"
    and "\<not> limit_throttle (fst (output_armed e s))"
proof -
  define l0 where "l0 = snd (armed_begin e s)"
  have l0: "out_min l0 = 1100" "out_max l0 = 2000" "out_mid l0 = 1550"
    "rpy_low l0 = 0" "rpy_high l0 = 0" "rpy_out l0 = (\<lambda>i. 0)" "rpy_scale l0 = Finite 1"
    by (simp_all add: l0_def armed_begin_def Let_def cfg c_div_def)
  define v where "v = min 1550 (max 1500 (c_div (1500 + sint (hover_out s)) 2))"
  have v: "1500 \<le> v" "v \<le> 1550" by (simp_all add: v_def)
  define omr where "omr = neutral_range l0 1500 (hover_out s)"
  have iv: "I16 v = omr" by (simp add: omr_def neutral_range_def l0 v_def)
  then have "omr = I16 v" by simp
  moreover have "sint (I16 v) = v" by (rule sint_I16) (use v in linarith)+
  ultimately have omr: "sint omr = v" by (simp only:)
  have "sint (neutral_room e l0 1500 (hover_out s))
        = max (min (2000 - v) (v - 1100)) (YAW_LOWER_LIMIT_PWM e)"
  proof -
    have a: "sint (I16 (min (2000 - v) (v - 1100))) = min (2000 - v) (v - 1100)"
      by (rule sint_I16) (use v in linarith)+
    have "sint (I16 (max (min (2000 - v) (v - 1100)) (YAW_LOWER_LIMIT_PWM e)))
          = max (min (2000 - v) (v - 1100)) (YAW_LOWER_LIMIT_PWM e)"
      by (rule sint_I16) (use v lim in linarith)+
    moreover have "neutral_room e l0 1500 (hover_out s)
          = I16 (max (sint (I16 (min (2000 - v) (v - 1100)))) (YAW_LOWER_LIMIT_PWM e))"
      unfolding neutral_room_def omr_def [symmetric] omr l0 by simp
    ultimately show ?thesis by (simp only: a)
  qed
  then have room: "sint (neutral_room e l0 1500 (hover_out s)) \<noteq> 0" using v by linarith
  note ay = neutral_after_add_yaw [OF roll pitch yaw lim]
  obtain s2 where x2: "after_add_yaw e s = (s2, l0\<lparr>out_max_range := omr, yaw_allowed := 0\<rparr>)"
    using ay(1) unfolding thr l0_def [symmetric] omr_def [symmetric]
    by (cases "after_add_yaw e s") simp
  have s2: "\<not> limit_roll_pitch s2" "\<not> limit_yaw s2" "\<not> limit_throttle s2"
    using ay(2,3,4) room unfolding thr l0_def [symmetric] x2 by (simp_all add: l0)
  have s2f: "radio_out (rc_throttle s2) = 1500" "motor_enabled s2 = motor_enabled s"
    "throttle_curve_enabled s2 = throttle_curve_enabled s"
    using flags_cleared_eq_fields(1,4,7) [OF after_states(4), of e s] thr
    by (simp_all add: x2 armed_begin_fields)
  define t where "t = I16 (1500 - v)"
  have t: "sint t = 1500 - v" unfolding t_def by (rule sint_I16) (use v in linarith)+
  have tw: "1500 - omr = t" by (simp add: t_def iv)
  have m: "max (1500 - v) (min (1100 - v) 0) = 1500 - v" using v by simp
  have x3: "after_thr_adj e s = (s2, l0\<lparr>out_max_range := omr, yaw_allowed := 0, thr_adj := t\<rparr>)"
    using v by (simp add: after_thr_adj_def x2 general_thr_adj_def Let_def s2f omr l0 tw t m iv)
  have x4: "after_scale e s = (s2, l0\<lparr>out_max_range := omr, yaw_allowed := 0, thr_adj := t\<rparr>)"
    using v by (simp add: after_scale_def x3 general_scale_def l0 omr t)
  have out: "fst (output_armed e s)
             = fst (general_outputs e (s2, l0\<lparr>out_max_range := omr, yaw_allowed := 0, thr_adj := t\<rparr>))"
    by (simp add: output_armed_general [OF gen] x4)
  have val: "f2i16 (undef_cast e) (Finite 1500) = 1500"
    by (simp add: f2i16_def trunc_def)
  have "(signed omr :: real) = real_of_int (sint omr)" "(signed t :: real) = real_of_int (sint t)"
    by (rule of_int_sint [symmetric])+
  then have "(signed omr :: real) = real_of_int v" "(signed t :: real) = real_of_int (1500 - v)"
    by (simp_all only: omr t)
  then have sum: "(signed omr :: real) + signed t = 1500" by simp
  show "\<not> limit_roll_pitch (fst (output_armed e s))" "\<not> limit_yaw (fst (output_armed e s))"
    "\<not> limit_throttle (fst (output_armed e s))"
    unfolding out general_outputs_fields using s2 by simp_all
  show "motor_out (fst (output_armed e s)) i = 1500"
    if "i < MAX_NUM_MOTORS e" "motor_enabled s i"
    unfolding out using that nc
    by (simp add: general_outputs_def Let_def update_motor_out_eq s2f l0 sum val
        constrain_int16_def)
qed

lemma four_motors_enabled:
  assumes "4 \<le> MAX_NUM_MOTORS e" and "\<forall>i. \<not> motor_enabled b i"
  shows "motor_enabled
           (add_motor e 3 315 (- 1) o3 (add_motor e 2 225 1 o2
              (add_motor e 1 135 (- 1) o1 (add_motor e 0 45 1 o0 b)))) i
         \<longleftrightarrow> i < 4"
  using assms by (auto simp: add_motor_def add_motor_raw_def Let_def)

lemma mid_servo_general:
  assumes "servo_out (rc_throttle s) = 500" and "max_throttle s \<noteq> 0"
  shows "\<not> zero_throttle_cycle e s"
  using assms by (auto simp: zero_cycle_iff constrain_int16_def)

text \<open>
  Claim C3, as amended. Four motors registered with \<^verbatim>\<open>add_motor\<close> at 45, 135, 225 and
  315 degrees with yaw factors +1, -1, +1, -1 on a registry with no other motor,
  \<open>radio_min = 1000\<close>, \<open>radio_max = 2000\<close>, \<open>min_throttle = 100\<close>, a desired throttle of
  500 with a throttle PWM of 1500, roll, pitch and yaw PWM of zero, no throttle curve:
  \<^verbatim>\<open>output_armed\<close> sets the four motors to 1500, the throttle PWM, and leaves the three
  limit flags false. This holds for every hover estimate, every nonzero throttle
  ceiling, every capacity of four slots or more and every yaw floor from 0 to 32767.
\<close>

theorem mid_throttle_scenario:
  assumes "4 \<le> MAX_NUM_MOTORS e" and "\<forall>i. \<not> motor_enabled b i"
    and "s = add_motor e 3 315 (- 1) o3 (add_motor e 2 225 1 o2
               (add_motor e 1 135 (- 1) o1 (add_motor e 0 45 1 o0 b)))"
    and "radio_min (rc_throttle s) = 1000" and "radio_max (rc_throttle s) = 2000"
    and "min_throttle s = 100"
    and "servo_out (rc_throttle s) = 500" and "max_throttle s \<noteq> 0"
    and "radio_out (rc_throttle (fst (armed_begin e s))) = 1500"
    and "pwm_out (rc_roll (fst (armed_begin e s))) = 0"
    and "pwm_out (rc_pitch (fst (armed_begin e s))) = 0"
    and "pwm_out (rc_yaw (fst (armed_begin e s))) = 0"
    and "\<not> throttle_curve_enabled s"
    and "0 \<le> YAW_LOWER_LIMIT_PWM e" and "YAW_LOWER_LIMIT_PWM e \<le> 32767"
  shows "(\<forall>i. motor_enabled s i \<longleftrightarrow> i < 4) \<and>
         (\<forall>i < 4. motor_out (fst (output_armed e s)) i = 1500) \<and>
         \<not> limit_roll_pitch (fst (output_armed e s)) \<and>
         \<not> limit_yaw (fst (output_armed e s)) \<and>
         \<not> limit_throttle (fst (output_armed e s))"
proof -
  have en: "motor_enabled s i \<longleftrightarrow> i < 4" for i
    unfolding assms(3) by (rule four_motors_enabled [OF assms(1,2)])
  have gen: "\<not> zero_throttle_cycle e s" by (rule mid_servo_general [OF assms(7,8)])
  note c = mid_throttle_cycle [OF assms(4,5,6) assms(10,11,12) assms(9) gen assms(13,14,15)]
  have "motor_out (fst (output_armed e s)) i = 1500" if "i < 4" for i
    using c(1) [of i] that en assms(1) by simp
  then show ?thesis using en c(2,3,4) by simp
qed

lemma quad_mid_built:
  "quad_mid = add_motor env0 3 315 (- 1) 3 (add_motor env0 2 225 1 2
               (add_motor env0 1 135 (- 1) 1 (add_motor env0 0 45 1 0
                  (motors0\<lparr>rc_throttle := chan0\<lparr>servo_out := 500, radio_out := 1500\<rparr>\<rparr>))))"
  by (simp add: quad_mid_def quad_x_def add_motor_def add_motor_raw_def Let_def motors0_def env0_def)

lemma quad_mid_begin:
  "radio_out (rc_throttle (fst (armed_begin env0 quad_mid))) = 1500"
  "pwm_out (rc_roll (fst (armed_begin env0 quad_mid))) = 0"
  "pwm_out (rc_pitch (fst (armed_begin env0 quad_mid))) = 0"
  "pwm_out (rc_yaw (fst (armed_begin env0 quad_mid))) = 0"
  by (simp_all add: armed_begin_def quad_mid_def quad_x_fields chan0_def env0_def
      do_calc_pwm_def Let_def)

lemma quad_mid_config:
  "radio_min (rc_throttle quad_mid) = 1000" "radio_max (rc_throttle quad_mid) = 2000"
  "min_throttle quad_mid = 100" "servo_out (rc_throttle quad_mid) = 500"
  "max_throttle quad_mid \<noteq> 0" "\<not> throttle_curve_enabled quad_mid"
  by (simp_all add: quad_mid_def quad_x_fields chan0_def)

theorem mid_throttle_scenario_witness:
  "4 \<le> MAX_NUM_MOTORS env0 \<and>
   (\<forall>i. \<not> motor_enabled (motors0\<lparr>rc_throttle := chan0\<lparr>servo_out := 500, radio_out := 1500\<rparr>\<rparr>) i) \<and>
   servo_out (rc_throttle quad_mid) = 500 \<and>
   radio_out (rc_throttle (fst (armed_begin env0 quad_mid))) = 1500 \<and>
   motor_out (fst (output_armed env0 quad_mid)) 0 = 1500 \<and>
   motor_out (fst (output_armed env0 quad_mid)) 1 = 1500 \<and>
   motor_out (fst (output_armed env0 quad_mid)) 2 = 1500 \<and>
   motor_out (fst (output_armed env0 quad_mid)) 3 = 1500 \<and>
   \<not> limit_roll_pitch (fst (output_armed env0 quad_mid)) \<and>
   \<not> limit_yaw (fst (output_armed env0 quad_mid)) \<and>
   \<not> limit_throttle (fst (output_armed env0 quad_mid))"
proof -
  have m: "4 \<le> MAX_NUM_MOTORS env0" "0 \<le> YAW_LOWER_LIMIT_PWM env0"
    "YAW_LOWER_LIMIT_PWM env0 \<le> 32767"
    by (simp_all add: env0_def)
  have b: "\<forall>i. \<not> motor_enabled (motors0\<lparr>rc_throttle := chan0\<lparr>servo_out := 500, radio_out := 1500\<rparr>\<rparr>) i"
    by (simp add: motors0_def)
  show ?thesis
    using mid_throttle_scenario [OF m(1) b quad_mid_built quad_mid_config(1,2,3,4,5)
        quad_mid_begin quad_mid_config(6) m(2,3)] m(1) b quad_mid_config(4) quad_mid_begin(1)
    by simp
qed

text \<open>
  The scenario as claim C3 states it: the first motor is enabled and its output is 1500,
  not 1550.
\<close>

theorem mid_throttle_scenario_counterexample:
  "motor_enabled quad_mid 0 \<and>
   motor_out (fst (output_armed env0 quad_mid)) 0 = 1500 \<and>
   motor_out (fst (output_armed env0 quad_mid)) 0 \<noteq> 1550"
proof -
  have m: "0 \<le> YAW_LOWER_LIMIT_PWM env0" "YAW_LOWER_LIMIT_PWM env0 \<le> 32767"
    "(0::nat) < MAX_NUM_MOTORS env0"
    by (simp_all add: env0_def)
  have en: "motor_enabled quad_mid 0" by (simp add: quad_mid_def quad_x_enabled)
  have "motor_out (fst (output_armed env0 quad_mid)) 0 = 1500"
    by (rule mid_throttle_cycle(1) [OF quad_mid_config(1,2,3) quad_mid_begin(2,3,4)
          quad_mid_begin(1) quad_mid_general quad_mid_config(6) m(1,2) m(3) en])
  then show ?thesis using en by simp
qed

section \<open>The yaw limit\<close>





























section \<open>The test sequencer\<close>

lemma unat_uint8: "unat (x::uint8_t) < 256"
  using unsigned_less [of x, where 'a = nat] by simp

lemma uint8_top: "(255::uint8_t) \<le> x \<Longrightarrow> x = 255"
proof -
  assume "(255::uint8_t) \<le> x"
  then have "255 \<le> unat x" by (simp add: word_le_nat_alt)
  then have "unat x = unat (255::uint8_t)" using unat_uint8 [of x] by simp
  then show ?thesis by (simp only: word_unat_eq_iff)
qed

lemma uint8_le_top: "(i::uint8_t) \<le> 255"
  using unat_uint8 [of i] by (simp add: word_le_nat_alt)

text \<open>With a highest order of 255 the outer loop never ends.\<close>

lemma order_loop_some:
  assumes "order_loop e s mx i tr = Some y"
  shows "mx \<noteq> 255"
proof -
  have step: "mx \<noteq> 255"
    if ih: "\<And>a b mx i tr y. f a b mx i tr = Some y \<Longrightarrow> mx \<noteq> 255"
      and st: "(if i \<le> mx then f e s mx (i + 1) (tr @ fire_order e s i) else Some tr) = Some y"
    for f :: "env \<Rightarrow> ap_motors \<Rightarrow> uint8_t \<Rightarrow> uint8_t \<Rightarrow> event list \<Rightarrow> event list option"
      and e s mx i tr y
  proof
    assume mx: "mx = 255"
    then have "f e s mx (i + 1) (tr @ fire_order e s i) = Some y"
      using st uint8_le_top [of i] by simp
    from ih [OF this] mx show False by simp
  qed
  show ?thesis
    by (rule order_loop.raw_induct [where P = "\<lambda>e s mx i tr y. mx \<noteq> 255", OF _ assms])
       (rule step)
qed

lemma order_loop_255: "order_loop e s 255 i tr = None"
  using order_loop_some [of e s 255 i tr] by (cases "order_loop e s 255 i tr") auto

text \<open>The orders found bound the test order of every slot.\<close>

lemma find_orders_loop:
  "k < n \<Longrightarrow>
   (let r = fold (\<lambda>i (min_order, max_order).
                    (if test_order s i < min_order then test_order s i else min_order,
                     if max_order < test_order s i then test_order s i else max_order))
                 [1..<n] (test_order s 0, test_order s 0)
    in fst r \<le> test_order s k \<and> test_order s k \<le> snd r)"
proof (induction n arbitrary: k)
  case 0
  then show ?case by simp
next
  case (Suc n)
  show ?case
  proof (cases "n = 0")
    case True
    then show ?thesis using Suc.prems by simp
  next
    case False
    then have up: "[1..<Suc n] = [1..<n] @ [n]" by simp
    let ?r = "fold (\<lambda>i (min_order, max_order).
                    (if test_order s i < min_order then test_order s i else min_order,
                     if max_order < test_order s i then test_order s i else max_order))
                 [1..<n] (test_order s 0, test_order s 0)"
    show ?thesis
    proof (cases "k = n")
      case True
      then show ?thesis unfolding up by (auto simp: Let_def split_def)
    next
      case kn: False
      then have "k < n" using Suc.prems by simp
      from Suc.IH [OF this] have "fst ?r \<le> test_order s k \<and> test_order s k \<le> snd ?r"
        by (simp add: Let_def)
      then show ?thesis unfolding up by (auto simp: Let_def split_def)
    qed
  qed
qed

lemma find_orders_bounds:
  "k < MAX_NUM_MOTORS e \<Longrightarrow>
   fst (find_orders e s) \<le> test_order s k \<and> test_order s k \<le> snd (find_orders e s)"
  using find_orders_loop [of k "MAX_NUM_MOTORS e" s] by (simp add: find_orders_def Let_def)

text \<open>
  Claim C9 says that every enabled motor fires exactly one pulse pair and that all motors
  are driven to \<^verbatim>\<open>radio_min\<close> after the sequence. When a slot, enabled or not, has the
  test order 255, the highest order is 255, the test \<^verbatim>\<open>i <= max_order\<close> on \<^verbatim>\<open>uint8_t\<close>
  never fails, and \<^verbatim>\<open>output_test\<close> does not return.
\<close>

theorem output_test_never_returns:
  assumes "k < MAX_NUM_MOTORS e" and "test_order s k = 255"
  shows "output_test e s = None"
proof -
  have "snd (find_orders e s) = 255"
    using find_orders_bounds [OF assms(1), of s] assms(2) by (simp add: uint8_top)
  then show ?thesis
    by (simp add: output_test_def split_def Let_def order_loop_255)
qed

theorem output_test_never_returns_witness:
  "(4::nat) < MAX_NUM_MOTORS env0 \<and> test_order quad_last 4 = 255 \<and>
   motor_enabled quad_last 4 \<and> output_test env0 quad_last = None"
proof -
  have h: "(4::nat) < MAX_NUM_MOTORS env0" "test_order quad_last 4 = 255" "motor_enabled quad_last 4"
    by (simp_all add: quad_last_def add_motor_def add_motor_raw_def env0_def Let_def)
  show ?thesis using output_test_never_returns [OF h(1,2)] h by simp
qed

text \<open>With a highest order below 255 the outer loop ends, after one pass for every order.\<close>

lemma order_loop_returns:
  "mx \<noteq> 255 \<Longrightarrow> unat i \<le> Suc (unat mx) \<Longrightarrow> k = Suc (unat mx) - unat i \<Longrightarrow>
   order_loop e s mx i tr
     = Some (tr @ concat (map (\<lambda>n. fire_order e s (of_nat n)) [unat i..<Suc (unat mx)]))"
proof (induction k arbitrary: i tr)
  case 0
  then have eq: "unat i = Suc (unat mx)" by simp
  then have "\<not> i \<le> mx" by (simp add: word_le_nat_alt)
  then show ?case using eq by (subst order_loop.simps) simp
next
  case (Suc k)
  then have le: "unat i \<le> unat mx" by simp
  then have imx: "i \<le> mx" by (simp add: word_le_nat_alt)
  have "unat mx < 255"
  proof -
    have "unat mx \<noteq> unat (255::uint8_t)" using Suc.prems(1) by (simp only: word_unat_eq_iff) simp
    then show ?thesis using unat_uint8 [of mx] by simp
  qed
  then have "unat i < 255" using le by simp
  then have ui: "unat (i + 1) = Suc (unat i)"
    by (simp add: unat_word_ariths)
  have ih: "order_loop e s mx (i + 1) (tr @ fire_order e s i)
      = Some ((tr @ fire_order e s i)
              @ concat (map (\<lambda>n. fire_order e s (of_nat n)) [unat (i + 1)..<Suc (unat mx)]))"
    by (rule Suc.IH) (use Suc.prems le ui in simp_all)
  have up: "[unat i..<Suc (unat mx)] = unat i # [Suc (unat i)..<Suc (unat mx)]"
    using le by (simp add: upt_conv_Cons)
  have "order_loop e s mx i tr = order_loop e s mx (i + 1) (tr @ fire_order e s i)"
    by (subst order_loop.simps) (simp add: imx)
  also note ih
  also have "(tr @ fire_order e s i)
              @ concat (map (\<lambda>n. fire_order e s (of_nat n)) [unat (i + 1)..<Suc (unat mx)])
      = tr @ concat (map (\<lambda>n. fire_order e s (of_nat n)) [unat i..<Suc (unat mx)])"
    unfolding ui up by (simp del: upt_Suc)
  finally show ?case .
qed

lemma fire_loop_eq:
  "fold (\<lambda>j tr. if motor_enabled s j \<and> test_order s j = i then tr @ pulse s j else tr) [0..<n] tr0
   = tr0 @ concat (map (pulse s) (filter (\<lambda>j. motor_enabled s j \<and> test_order s j = i) [0..<n]))"
  by (induction n) simp_all

lemma fire_order_eq:
  "fire_order e s i
   = concat (map (pulse s)
       (filter (\<lambda>j. motor_enabled s j \<and> test_order s j = i) [0..<MAX_NUM_MOTORS e]))"
  by (simp add: fire_order_def for_motors_def fire_loop_eq)

lemma output_min_loop:
  "fold (\<lambda>i (s, tr).
          if motor_enabled s i then
            (let s' = s\<lparr>motor_out := (motor_out s)(i := radio_min (rc_throttle s))\<rparr>
             in (s', tr @ [Write (motor_to_channel_map s' i) (motor_out s' i)]))
          else (s, tr)) [0..<n] (s, tr0)
   = (s\<lparr>motor_out := (\<lambda>i. if i < n \<and> motor_enabled s i then radio_min (rc_throttle s)
                              else motor_out s i)\<rparr>,
      tr0 @ map (\<lambda>i. Write (motor_to_channel_map s i) (radio_min (rc_throttle s)))
                (filter (motor_enabled s) [0..<n]))"
proof (induction n)
  case 0
  then show ?case by simp
next
  case (Suc n)
  have "(\<lambda>i. if i < Suc n \<and> motor_enabled s i then radio_min (rc_throttle s) else motor_out s i)
      = (if motor_enabled s n
         then (\<lambda>i. if i < n \<and> motor_enabled s i then radio_min (rc_throttle s) else motor_out s i)
                (n := radio_min (rc_throttle s))
         else (\<lambda>i. if i < n \<and> motor_enabled s i then radio_min (rc_throttle s) else motor_out s i))"
    by (auto simp: fun_eq_iff less_Suc_eq)
  then show ?case using Suc.IH by (simp add: Let_def)
qed

lemma output_min_eq:
  "output_min e s
   = (s\<lparr>motor_out := (\<lambda>i. if i < MAX_NUM_MOTORS e \<and> motor_enabled s i
                           then radio_min (rc_throttle s) else motor_out s i)\<rparr>,
      map (\<lambda>i. Write (motor_to_channel_map s i) (radio_min (rc_throttle s))) (enabled_slots e s))"
  by (simp add: output_min_def for_motors_def output_min_loop enabled_slots_def)

lemma find_orders_le: "fst (find_orders e s) \<le> snd (find_orders e s)"
proof (cases "0 < MAX_NUM_MOTORS e")
  case True
  then show ?thesis using find_orders_bounds [OF True, of s] order_trans by blast
next
  case False
  then show ?thesis by (simp add: find_orders_def)
qed

lemma output_min_twice:
  "output_min e (fst (output_min e s)) = output_min e s"
  by (simp add: output_min_eq enabled_slots_def fun_eq_iff)

lemma pulse_motor_out: "pulse (s\<lparr>motor_out := f\<rparr>) = pulse s"
  by (simp add: pulse_def fun_eq_iff)

lemma output_min_keeps:
  "fire_order e (fst (output_min e s)) i = fire_order e s i"
  by (simp add: output_min_eq fire_order_eq pulse_motor_out)

lemma concat_map_concat:
  "concat (map (\<lambda>n. concat (map g (F n))) ns) = concat (map g (concat (map F ns)))"
  by (induction ns) simp_all

text \<open>
  When no slot has the test order 255, \<^verbatim>\<open>output_test\<close> returns: all motors are driven to
  \<^verbatim>\<open>radio_min\<close>, 4000 ms pass, the motors of the firing sequence get one pulse pair
  each, and all motors are driven to \<^verbatim>\<open>radio_min\<close> again.
\<close>

lemma output_test_returns:
  assumes "snd (find_orders e s) \<noteq> 255"
  shows "output_test e s
         = Some (fst (output_min e s),
                 snd (output_min e s) @ [Delay 4000]
                   @ concat (map (pulse s) (firing_sequence e s))
                   @ snd (output_min e s))"
proof -
  obtain mn mx where f: "find_orders e s = (mn, mx)" by (cases "find_orders e s")
  have mx: "mx \<noteq> 255" using assms by (simp add: f)
  have "mn \<le> mx" using find_orders_le [of e s] by (simp add: f)
  then have le: "unat mn \<le> Suc (unat mx)" by (simp add: word_le_nat_alt)
  obtain s1 tr1 where m: "output_min e s = (s1, tr1)" by (cases "output_min e s")
  have m2: "output_min e s1 = (s1, tr1)" using output_min_twice [of e s] by (simp add: m)
  have fo: "fire_order e s1 i = fire_order e s i" for i
    using output_min_keeps [of e s i] by (simp add: m)
  have "concat (map (\<lambda>n. fire_order e s (of_nat n)) [unat mn..<Suc (unat mx)])
      = concat (map (pulse s) (firing_sequence e s))"
    unfolding firing_sequence_def f fst_conv snd_conv fire_order_eq
    by (rule concat_map_concat)
  then have "order_loop e s1 mx mn (tr1 @ [Delay 4000])
      = Some ((tr1 @ [Delay 4000]) @ concat (map (pulse s) (firing_sequence e s)))"
    using order_loop_returns [OF mx le refl, of e s1 "tr1 @ [Delay 4000]"] by (simp only: fo)
  then show ?thesis by (simp add: output_test_def f m m2)
qed

lemma word_of_nat_less8: "n < b \<Longrightarrow> b < 256 \<Longrightarrow> (of_nat n :: uint8_t) < of_nat b"
  by (simp add: word_less_nat_alt unat_of_nat)

lemma sorted_wrt_distinct:
  "sorted_wrt R xs \<Longrightarrow> (\<And>x. \<not> R x x) \<Longrightarrow> distinct xs"
  by (induction xs) auto

lemma one_order_sorted:
  "sorted_wrt (tested_before s)
     (filter (\<lambda>j. motor_enabled s j \<and> test_order s j = w) [0..<m])"
proof -
  have "sorted_wrt (<) (filter (\<lambda>j. motor_enabled s j \<and> test_order s j = w) [0..<m])"
    by (rule sorted_wrt_filter) (simp add: sorted_wrt_upt)
  then show ?thesis
    by (rule sorted_wrt_mono_rel [rotated]) (simp add: tested_before_def)
qed

lemma orders_sorted:
  "b \<le> 256 \<Longrightarrow>
   sorted_wrt (tested_before s)
     (concat (map (\<lambda>n. filter (\<lambda>j. motor_enabled s j \<and> test_order s j = of_nat n) [0..<m])
                  [a..<b]))"
proof (induction b)
  case 0
  then show ?case by simp
next
  case (Suc b)
  show ?case
  proof (cases "a \<le> b")
    case False
    then show ?thesis by simp
  next
    case True
    have "tested_before s x y"
      if "x \<in> set (concat (map (\<lambda>n. filter (\<lambda>j. motor_enabled s j \<and> test_order s j = of_nat n) [0..<m])
                  [a..<b]))"
        and "y \<in> set (filter (\<lambda>j. motor_enabled s j \<and> test_order s j = of_nat b) [0..<m])"
      for x y
    proof -
      from that(1) obtain n where "n \<in> set [a..<b]"
        "x \<in> set (filter (\<lambda>j. motor_enabled s j \<and> test_order s j = of_nat n) [0..<m])"
        unfolding set_concat set_map by blast
      then have n: "n < b" "test_order s x = of_nat n" by simp_all
      have "test_order s y = of_nat b" using that(2) by simp
      then show ?thesis
        using word_of_nat_less8 [OF n(1)] Suc.prems n(2) by (simp add: tested_before_def)
    qed
    then show ?thesis
      using True Suc.IH Suc.prems by (simp add: sorted_wrt_append one_order_sorted)
  qed
qed

text \<open>
  The firing sequence holds every enabled motor exactly once, a motor of a lower test
  order before one of a higher, and motors of one order by increasing slot index.
\<close>

lemma firing_sequence_sorted: "sorted_wrt (tested_before s) (firing_sequence e s)"
proof -
  have "Suc (unat (snd (find_orders e s))) \<le> 256"
    using unat_uint8 [of "snd (find_orders e s)"] by simp
  then show ?thesis unfolding firing_sequence_def by (rule orders_sorted)
qed

lemma firing_sequence_distinct: "distinct (firing_sequence e s)"
  by (rule sorted_wrt_distinct [OF firing_sequence_sorted]) (simp add: tested_before_def)

lemma firing_sequence_set:
  "set (firing_sequence e s) = {j. j < MAX_NUM_MOTORS e \<and> motor_enabled s j}"
proof (rule set_eqI)
  fix j
  let ?lo = "unat (fst (find_orders e s))" and ?hi = "Suc (unat (snd (find_orders e s)))"
  have mem: "j \<in> set (firing_sequence e s)
      \<longleftrightarrow> (\<exists>n\<in>{?lo..<?hi}. j < MAX_NUM_MOTORS e \<and> motor_enabled s j
               \<and> test_order s j = of_nat n)"
    unfolding firing_sequence_def by (auto simp del: upt_Suc)
  show "j \<in> set (firing_sequence e s) \<longleftrightarrow> j \<in> {j. j < MAX_NUM_MOTORS e \<and> motor_enabled s j}"
  proof (cases "j < MAX_NUM_MOTORS e \<and> motor_enabled s j")
    case False
    then show ?thesis unfolding mem by blast
  next
    case True
    have "unat (test_order s j) \<in> {?lo..<?hi}"
      using find_orders_bounds [of j e s] True by (simp add: word_le_nat_alt)
    moreover have "test_order s j = of_nat (unat (test_order s j))" by simp
    ultimately show ?thesis unfolding mem using True by blast
  qed
qed

end
